theory Spec2Isabelle
  imports Main "HOL-Library.Word"
begin

chapter \<open>The server as functions\<close>

text \<open>
  A shallow embedding of the upload server: the signature engine (lib/crypto.ts,
  lib/utils.ts, the local storage adapter), the two guards (lib/middleware.ts), the record
  store (prisma/schema.prisma) and the routes of the server's entry file.

  What the repository imports is outside it and is modelled as follows.
  \<^item> Strings are byte strings; text is read as ASCII (a character beyond ASCII is its
    UTF-8 bytes, and no UTF-8 validation is modelled).
  \<^item> Numbers are mathematical integers: timestamps, sizes and TTLs are whole numbers
    far below \<open>2^53\<close>, where a JavaScript number is exact.
  \<^item> HMAC-SHA256, SHA-256 and the base64-then-JSON decoding of a token are parameters
    (functions given from outside); every theorem holds for all of them.
  \<^item> A URL object is its serialisation split at the first \<open>#\<close> and the first
    \<open>?\<close>: scheme, authority and path are kept as one verbatim string
    (\<open>origin_path\<close>), the query string and the fragment are optional, and
    \<open>searchParams\<close> is the list of name-value pairs. Parsing fails exactly when the
    string has no scheme, which is when \<open>new URL(s)\<close> without a base throws for a
    string with no colon after scheme characters. Host and path normalisation are not
    modelled: request URLs and the configured base URL are taken as already normalised.
  \<^item> The database table is the list of its rows; the uploads directory is a map from
    file name to content. A write to either always succeeds.
  \<^item> Each request reads the clock once (\<open>now\<close>, in milliseconds).
\<close>

section \<open>Bytes and hexadecimal text\<close>

text \<open>
  \<open>toHex\<close> of lib/crypto.ts: two lower-case hexadecimal digits per byte.
  \<open>toString16\<close> is \<open>Number.prototype.toString(16)\<close> and \<open>padStart2\<close> is
  \<open>padStart(2, "0")\<close>. \<open>Buffer_from_hex\<close> is \<open>Buffer.from(s, "hex")\<close>: it decodes
  pairs of digits (either case) and stops, without an error, at the first pair that is not
  hexadecimal or at a trailing single character.
\<close>

type_synonym byte = "8 word"

definition hexdigit :: "nat \<Rightarrow> char" where
  "hexdigit n = (if n < 10 then char_of (48 + n) else char_of (87 + n))"

definition HEXDIGIT :: "nat \<Rightarrow> char" where
  "HEXDIGIT n = (if n < 10 then char_of (48 + n) else char_of (55 + n))"

definition hexval :: "char \<Rightarrow> nat option" where
  "hexval c =
     (let k = (of_char c :: nat) in
      if 48 \<le> k \<and> k \<le> 57 then Some (k - 48)
      else if 97 \<le> k \<and> k \<le> 102 then Some (k - 87)
      else if 65 \<le> k \<and> k \<le> 70 then Some (k - 55)
      else None)"

fun toString16 :: "nat \<Rightarrow> string" where
  "toString16 n = (if n < 16 then [hexdigit n] else toString16 (n div 16) @ [hexdigit (n mod 16)])"

declare toString16.simps [simp del]

definition padStart2 :: "string \<Rightarrow> string" where
  "padStart2 s = replicate (2 - length s) CHR ''0'' @ s"

definition toHex :: "byte list \<Rightarrow> string" where
  "toHex buffer = concat (map (\<lambda>b. padStart2 (toString16 (unat b))) buffer)"

fun Buffer_from_hex :: "string \<Rightarrow> byte list" where
  "Buffer_from_hex (a # b # rest) =
     (case (hexval a, hexval b) of
        (Some h, Some l) \<Rightarrow> of_nat (16 * h + l) # Buffer_from_hex rest
      | _ \<Rightarrow> [])"
| "Buffer_from_hex _ = []"

section \<open>URLSearchParams: the application/x-www-form-urlencoded format\<close>

text \<open>
  The serialiser leaves ASCII letters, digits and \<open>*-._\<close>, writes a space as
  \<open>+\<close>, and percent-encodes every other byte with upper-case digits. The parser splits
  at \<open>&\<close>, drops empty pieces, splits each piece at its first \<open>=\<close>, turns
  \<open>+\<close> into a space and percent-decodes, leaving a malformed escape as it stands.
\<close>

definition is_alpha :: "char \<Rightarrow> bool" where
  "is_alpha c = (let k = (of_char c :: nat) in (65 \<le> k \<and> k \<le> 90) \<or> (97 \<le> k \<and> k \<le> 122))"

definition is_digit :: "char \<Rightarrow> bool" where
  "is_digit c = (let k = (of_char c :: nat) in 48 \<le> k \<and> k \<le> 57)"

definition is_alnum :: "char \<Rightarrow> bool" where
  "is_alnum c = (is_alpha c \<or> is_digit c)"

definition percent_byte :: "char \<Rightarrow> string" where
  "percent_byte c = [CHR ''%'', HEXDIGIT (of_char c div 16), HEXDIGIT (of_char c mod 16)]"

definition urlencoded_byte :: "char \<Rightarrow> string" where
  "urlencoded_byte c =
     (if c = CHR '' '' then ''+''
      else if is_alnum c \<or> c \<in> set ''*-._'' then [c]
      else percent_byte c)"

definition urlencoded_string :: "string \<Rightarrow> string" where
  "urlencoded_string s = concat (map urlencoded_byte s)"

fun join :: "string \<Rightarrow> string list \<Rightarrow> string" where
  "join sep [] = []"
| "join sep [x] = x"
| "join sep (x # y # ys) = x @ sep @ join sep (y # ys)"

definition urlencoded_serialize :: "(string \<times> string) list \<Rightarrow> string" where
  "urlencoded_serialize l =
     join ''&'' (map (\<lambda>(n, v). urlencoded_string n @ ''='' @ urlencoded_string v) l)"

fun split_on :: "char \<Rightarrow> string \<Rightarrow> string list" where
  "split_on c [] = [[]]"
| "split_on c (x # xs) =
     (if x = c then [] # split_on c xs
      else (case split_on c xs of [] \<Rightarrow> [[x]] | y # ys \<Rightarrow> (x # y) # ys))"

fun percent_decode :: "string \<Rightarrow> string" where
  "percent_decode [] = []"
| "percent_decode (c # cs) =
     (if c = CHR ''%'' then
        (case cs of
           a # b # rest \<Rightarrow>
             (case (hexval a, hexval b) of
                (Some h, Some l) \<Rightarrow> char_of (16 * h + l) # percent_decode rest
              | _ \<Rightarrow> c # percent_decode cs)
         | _ \<Rightarrow> c # percent_decode cs)
      else c # percent_decode cs)"

definition plus_to_space :: "string \<Rightarrow> string" where
  "plus_to_space s = map (\<lambda>c. if c = CHR ''+'' then CHR '' '' else c) s"

definition urlencoded_pair :: "string \<Rightarrow> string \<times> string" where
  "urlencoded_pair seg =
     (percent_decode (plus_to_space (takeWhile (\<lambda>c. c \<noteq> CHR ''='') seg)),
      percent_decode (plus_to_space (drop 1 (dropWhile (\<lambda>c. c \<noteq> CHR ''='') seg))))"

definition urlencoded_parse :: "string \<Rightarrow> (string \<times> string) list" where
  "urlencoded_parse s = map urlencoded_pair (filter (\<lambda>seg. seg \<noteq> []) (split_on CHR ''&'' s))"

section \<open>URL objects\<close>

text \<open>
  \<open>update_steps\<close> is what every mutation of \<open>url.searchParams\<close> does: the query
  string becomes the serialisation of the new list, or is removed when the list is empty.
  \<open>searchParams_get\<close> returns the first value of a name, \<open>searchParams_delete\<close>
  removes every pair of a name, \<open>searchParams_append\<close> adds a pair at the end, and
  \<open>searchParams_set\<close> overwrites the first pair of a name and removes the others, or
  appends.
\<close>

record URL =
  origin_path :: string
  query :: "string option"
  fragment :: "string option"
  searchParams :: "(string \<times> string) list"

fun scheme_state :: "string \<Rightarrow> bool" where
  "scheme_state [] = False"
| "scheme_state (c # cs) =
     (if c = CHR '':'' then True
      else if is_alnum c \<or> c \<in> set ''+-.'' then scheme_state cs
      else False)"

definition has_scheme :: "string \<Rightarrow> bool" where
  "has_scheme s = (case s of [] \<Rightarrow> False | c # cs \<Rightarrow> is_alpha c \<and> scheme_state cs)"

definition split_first :: "char \<Rightarrow> string \<Rightarrow> string \<times> string option" where
  "split_first c s =
     (takeWhile (\<lambda>x. x \<noteq> c) s,
      if c \<in> set s then Some (drop 1 (dropWhile (\<lambda>x. x \<noteq> c) s)) else None)"

definition URL_parse :: "string \<Rightarrow> URL option" where
  "URL_parse s =
     (if \<not> has_scheme s then None
      else
        let (s1, frag) = split_first CHR ''#'' s;
            (s0, q) = split_first CHR ''?'' s1
        in Some \<lparr>origin_path = s0, query = q, fragment = frag,
                  searchParams = (case q of None \<Rightarrow> [] | Some qs \<Rightarrow> urlencoded_parse qs)\<rparr>)"

definition URL_toString :: "URL \<Rightarrow> string" where
  "URL_toString u =
     origin_path u
     @ (case query u of None \<Rightarrow> [] | Some q \<Rightarrow> CHR ''?'' # q)
     @ (case fragment u of None \<Rightarrow> [] | Some f \<Rightarrow> CHR ''#'' # f)"

definition update_steps :: "(string \<times> string) list \<Rightarrow> URL \<Rightarrow> URL" where
  "update_steps l u =
     (let serializedQuery = urlencoded_serialize l
      in u\<lparr>query := (if serializedQuery = [] then None else Some serializedQuery),
            searchParams := l\<rparr>)"

definition searchParams_get :: "URL \<Rightarrow> string \<Rightarrow> string option" where
  "searchParams_get u n = map_of (searchParams u) n"

definition searchParams_delete :: "string \<Rightarrow> URL \<Rightarrow> URL" where
  "searchParams_delete n u = update_steps (filter (\<lambda>p. fst p \<noteq> n) (searchParams u)) u"

definition searchParams_append :: "string \<Rightarrow> string \<Rightarrow> URL \<Rightarrow> URL" where
  "searchParams_append n v u = update_steps (searchParams u @ [(n, v)]) u"

fun list_set :: "string \<Rightarrow> string \<Rightarrow> (string \<times> string) list \<Rightarrow> (string \<times> string) list" where
  "list_set n v [] = [(n, v)]"
| "list_set n v (p # rest) =
     (if fst p = n then (n, v) # filter (\<lambda>p. fst p \<noteq> n) rest else p # list_set n v rest)"

definition searchParams_set :: "string \<Rightarrow> string \<Rightarrow> URL \<Rightarrow> URL" where
  "searchParams_set n v u = update_steps (list_set n v (searchParams u)) u"

section \<open>Numbers as text\<close>

text \<open>
  \<open>Number_toString\<close> is \<open>String(n)\<close> of an integer and \<open>parseInt10\<close> is
  \<open>parseInt(s, 10)\<close>: leading white space, an optional sign, then the longest run of
  decimal digits; \<open>None\<close> is NaN (no digit). Text after the digits is ignored, as
  JavaScript does.
\<close>

fun digits10 :: "nat \<Rightarrow> string" where
  "digits10 n = (if n < 10 then [char_of (48 + n)] else digits10 (n div 10) @ [char_of (48 + n mod 10)])"

declare digits10.simps [simp del]

definition Number_toString :: "int \<Rightarrow> string" where
  "Number_toString i = (if i < 0 then CHR ''-'' # digits10 (nat (- i)) else digits10 (nat i))"

definition is_space :: "char \<Rightarrow> bool" where
  "is_space c = ((of_char c :: nat) \<in> {9, 10, 11, 12, 13, 32})"

definition digit_value :: "char \<Rightarrow> nat" where
  "digit_value c = of_char c - 48"

definition digits_value :: "string \<Rightarrow> nat" where
  "digits_value ds = foldl (\<lambda>a c. 10 * a + digit_value c) 0 ds"

definition parseInt10 :: "string \<Rightarrow> int option" where
  "parseInt10 s =
     (let t = dropWhile is_space s;
          neg = (t \<noteq> [] \<and> hd t = CHR ''-'');
          r = (if t \<noteq> [] \<and> (hd t = CHR ''-'' \<or> hd t = CHR ''+'') then tl t else t);
          ds = takeWhile is_digit r
      in if ds = [] then None
         else Some (if neg then - int (digits_value ds) else int (digits_value ds)))"

section \<open>The signature engine\<close>

text \<open>
  \<open>verifySdkSignature\<close> (lib/crypto.ts) guards the ingest routes. It reads the
  \<open>signature\<close> parameter, removes it, recomputes the HMAC of the remaining URL and
  compares. It throws when the URL does not parse (\<open>Inl\<close>). It takes no clock.

  \<open>verifyCdnSignedUrl\<close> (lib/utils.ts) guards reads of private files. It needs both
  \<open>expires\<close> and \<open>signature\<close>, rejects when \<open>parseInt(expires, 10)\<close> is NaN or
  \<open>Date.now() > expiresTs\<close>, and compares the HMAC with the hexadecimal text after the
  last \<open>=\<close> of the signature. Every exception inside it is caught and gives false.
\<close>

datatype error = TypeError string | Error string | URIError string

type_synonym hmac_sha256 = "string \<Rightarrow> string \<Rightarrow> byte list"

definition signaturePrefix :: string where
  "signaturePrefix = ''hmac-sha256=''"

definition startsWith :: "string \<Rightarrow> string \<Rightarrow> bool" where
  "startsWith s p = (take (length p) s = p)"

definition verifySdkSignature :: "hmac_sha256 \<Rightarrow> string \<Rightarrow> string \<Rightarrow> error + bool" where
  "verifySdkSignature HMAC requestUrl secret =
     (case URL_parse requestUrl of
        None \<Rightarrow> Inl (TypeError ''Invalid URL'')
      | Some url \<Rightarrow>
          (case searchParams_get url ''signature'' of
             None \<Rightarrow> Inr False
           | Some rawSig \<Rightarrow>
               if rawSig = [] then Inr False
               else
                 let url' = searchParams_delete ''signature'' url;
                     payload = URL_toString url';
                     sig = (if startsWith rawSig signaturePrefix
                            then drop (length signaturePrefix) rawSig else rawSig);
                     sigBytes = Buffer_from_hex sig
                 in Inr (sigBytes = HMAC secret payload)))"

definition verifyCdnSignedUrl :: "hmac_sha256 \<Rightarrow> int \<Rightarrow> string \<Rightarrow> string \<Rightarrow> bool" where
  "verifyCdnSignedUrl HMAC now fullUrl secret =
     (case URL_parse fullUrl of
        None \<Rightarrow> False
      | Some u \<Rightarrow>
          (case (searchParams_get u ''expires'', searchParams_get u ''signature'') of
             (Some expires, Some signature) \<Rightarrow>
               if expires = [] \<or> signature = [] then False
               else
                 (case parseInt10 expires of
                    None \<Rightarrow> False
                  | Some expiresTs \<Rightarrow>
                      if now > expiresTs then False
                      else
                        let u' = searchParams_delete ''signature'' u;
                            payload = URL_toString u';
                            expected = HMAC secret payload;
                            incoming = (if CHR ''='' \<in> set signature
                                        then last (split_on CHR ''='' signature) else signature);
                            incomingBuf = Buffer_from_hex incoming
                        in if length incomingBuf \<noteq> length expected then False
                           else incomingBuf = expected)
           | _ \<Rightarrow> False))"

text \<open>
  \<open>parseTimeToSeconds\<close> (lib/utils.ts): a number of seconds, or digits followed by one
  unit letter. \<open>getSignedUrl\<close> is the local storage adapter's signer of read URLs,
  with its own copy of the hexadecimal printer (\<open>toHex_local\<close>) and its range check on
  the TTL; \<open>data\<close> holds the optional extra parameters (a value that is null or
  undefined is \<open>None\<close>). \<open>generateSignedUploadUrl\<close> (lib/utils.ts) is the signer
  of upload URLs: it starts from \<open>new URL(params.key)\<close>, sets \<open>expires\<close>, then every
  entry of \<open>params\<close> in order, then the signature.
\<close>

datatype Time = TimeNumber int | TimeString string

definition parseTimeToSeconds :: "Time \<Rightarrow> error + int" where
  "parseTimeToSeconds time =
     (case time of
        TimeNumber n \<Rightarrow>
          if n < 0 then Inl (Error (''Invalid time number: '' @ Number_toString n)) else Inr n
      | TimeString s \<Rightarrow>
          if s = [] \<or> butlast s = [] \<or> \<not> list_all is_digit (butlast s) \<or> last s \<notin> set ''smhdwMy''
          then Inl (Error (''Invalid time format: '' @ [CHR 0x22] @ s @ [CHR 0x22]))
          else
            let val = int (digits_value (butlast s)); unit = last s
            in Inr (if unit = CHR ''s'' then val
                    else if unit = CHR ''m'' then val * 60
                    else if unit = CHR ''h'' then val * 3600
                    else if unit = CHR ''d'' then val * 86400
                    else if unit = CHR ''w'' then val * 604800
                    else if unit = CHR ''M'' then val * 2592000
                    else val * 31536000))"

definition encodeURIComponent :: "string \<Rightarrow> string" where
  "encodeURIComponent s =
     concat (map (\<lambda>c. if is_alnum c \<or> c \<in> set (''-_.!~*()'' @ [CHR 0x27]) then [c]
                       else percent_byte c) s)"

definition slice_last2 :: "string \<Rightarrow> string" where
  "slice_last2 s = drop (length s - 2) s"

definition toHex_local :: "byte list \<Rightarrow> string" where
  "toHex_local buffer = concat (map (\<lambda>x. slice_last2 (''00'' @ toString16 (unat x))) buffer)"

definition getSignedUrl ::
  "hmac_sha256 \<Rightarrow> string \<Rightarrow> string \<Rightarrow> int \<Rightarrow> string \<Rightarrow> Time \<Rightarrow> (string \<times> string option) list option
   \<Rightarrow> error + string" where
  "getSignedUrl HMAC baseUrl apiSecret now fileKey expiresIn data =
     (case parseTimeToSeconds expiresIn of
        Inl e \<Rightarrow> Inl e
      | Inr ttlInSeconds \<Rightarrow>
          if ttlInSeconds \<le> 0 then
            Inl (Error ''Invalid expiresIn: must be a positive number of seconds or a valid time string.'')
          else if ttlInSeconds > 86400 * 7 then
            Inl (Error ''expiresIn must be less than 7 days (604800 seconds).'')
          else
            let urlBase = baseUrl @ ''/f/'' @ fileKey in
            (case URL_parse urlBase of
               None \<Rightarrow> Inl (TypeError ''Invalid URL'')
             | Some parsedURL \<Rightarrow>
                 let expirationTimestampMs = now + ttlInSeconds * 1000;
                     u1 = searchParams_append ''expires'' (Number_toString expirationTimestampMs) parsedURL;
                     u2 = (case data of
                             None \<Rightarrow> u1
                           | Some d \<Rightarrow>
                               fold (\<lambda>(key, value) u.
                                       case value of
                                         None \<Rightarrow> u
                                       | Some v \<Rightarrow> searchParams_append key (encodeURIComponent v) u)
                                 d u1);
                     payloadForSigning = URL_toString u2;
                     signatureHex = toHex_local (HMAC apiSecret payloadForSigning);
                     signature = signaturePrefix @ signatureHex;
                     u3 = searchParams_append ''signature'' signature u2
                 in Inr (URL_toString u3)))"

definition generateSignedUploadUrl ::
  "hmac_sha256 \<Rightarrow> string \<Rightarrow> int \<Rightarrow> (string \<times> string) list \<Rightarrow> int \<Rightarrow> error + string" where
  "generateSignedUploadUrl HMAC API_SECRET now params expiresIn =
     (case (case map_of params ''key'' of None \<Rightarrow> None | Some k \<Rightarrow> URL_parse k) of
        None \<Rightarrow> Inl (TypeError ''Invalid URL'')
      | Some url \<Rightarrow>
          let expirationTimestampMs = now + expiresIn * 1000;
              u1 = searchParams_set ''expires'' (Number_toString expirationTimestampMs) url;
              u2 = fold (\<lambda>(key, value) u. searchParams_set key value u) params u1;
              payload = URL_toString u2;
              signature = HMAC API_SECRET payload;
              u3 = searchParams_set ''signature'' (signaturePrefix @ toHex signature) u2
          in Inr (URL_toString u3))"

text \<open>
  \<open>generateFileKey\<close> returns \<open>nanoid(24)\<close>: 24 characters of nanoid's URL
  alphabet. The random choice is an input of the routes that call it; \<open>nanoid_key\<close>
  says that a string is a possible result.
\<close>

definition urlAlphabet :: string where
  "urlAlphabet = ''useandom-26T198340PX75pxJACKVERYMINDBUSHWOLF_GQZbfghjklqvwyzrict''"

definition nanoid_key :: "string \<Rightarrow> bool" where
  "nanoid_key k = (length k = 24 \<and> set k \<subseteq> set urlAlphabet)"

section \<open>Token codec and API-key guard\<close>

text \<open>
  \<open>parseApiToken\<close> (lib/utils.ts): a token without a dot and of at most 64 characters
  is the key itself; any other token is base64-decoded and parsed as JSON
  (\<open>base64_json\<close>, \<open>None\<close> when \<open>JSON.parse\<close> throws). The JSON value
  \<open>null\<close> passes the \<open>typeof parsed !== "object"\<close> test, so reading its
  \<open>apiKey\<close> throws.
\<close>

datatype json = JNull | JBool bool | JNumber int | JString string
  | JArray "json list" | JObject "(string \<times> json) list"

record ApiToken =
  appId :: string
  apiKey :: string

definition parseApiToken :: "(string \<Rightarrow> json option) \<Rightarrow> string \<Rightarrow> error + ApiToken option" where
  "parseApiToken base64_json token =
     (if CHR ''.'' \<notin> set token \<and> length token \<le> 64 then
        Inr (Some \<lparr>appId = ''default'', apiKey = token\<rparr>)
      else
        (case base64_json token of
           None \<Rightarrow> Inr None
         | Some parsed \<Rightarrow>
             (case parsed of
                JNull \<Rightarrow> Inl (TypeError ''null is not an object'')
              | JObject members \<Rightarrow>
                  (case map_of members ''apiKey'' of
                     Some (JString k) \<Rightarrow>
                       Inr (Some \<lparr>appId = (case map_of members ''appId'' of
                                               Some (JString a) \<Rightarrow> a | _ \<Rightarrow> ''default''),
                                   apiKey = k\<rparr>)
                   | _ \<Rightarrow> Inr None)
              | _ \<Rightarrow> Inr None)))"

definition validateApiKey :: "string \<Rightarrow> string \<Rightarrow> bool" where
  "validateApiKey k secret = (k = secret)"

section \<open>Records, store and responses\<close>

text \<open>
  \<open>File\<close> is the model \<open>File\<close> of prisma/schema.prisma (\<open>id\<close>,
  \<open>size\<close> and \<open>type\<close> carry a prime). \<open>Env\<close> holds the process configuration
  (lib/constants.ts) and the primitives taken as parameters.
\<close>

datatype FileStatus = DELETION_PENDING | FAILED | UPLOADED | UPLOADING

datatype FileAcl = PUBLIC_READ | PRIVATE

datatype ContentDisposition = INLINE | ATTACHMENT

record File =
  id' :: string
  customId :: "string option"
  key :: string
  name :: string
  size' :: int
  type' :: string
  status :: FileStatus
  acl :: FileAcl
  contentDisposition :: "ContentDisposition option"
  metadata :: "string option"
  callbackUrl :: "string option"
  callbackSlug :: "string option"
  fileHash :: "string option"
  uploadedAt :: "int option"
  createdAt :: int
  updatedAt :: int

record State =
  files :: "File list"
  uploads :: "string \<rightharpoonup> byte list"

definition initial :: State where
  "initial = \<lparr>files = [], uploads = Map.empty\<rparr>"

record Env =
  API_SECRET :: string
  BASE_URL :: string
  APP_ID :: string
  HMAC_SHA256 :: hmac_sha256
  SHA256_hex :: "byte list \<Rightarrow> string"
  base64_json :: "string \<Rightarrow> json option"

record PollFile =
  pollFileKey :: string
  pollFileName :: string
  pollFileSize :: int
  pollFileType :: string
  pollFileUrl :: string
  pollCustomId :: "string option"

record UploadTarget =
  targetKey :: string
  targetFileName :: string
  targetFileType :: string
  targetFileUrl :: string
  targetUrl :: string
  targetCustomId :: "string option"
  targetContentDisposition :: string
  pollingJwt :: string
  pollingUrl :: string

datatype Body =
    Text string
  | JsonError string
  | JsonSuccess
  | JsonOk
  | JsonDeleted nat
  | JsonRenamed nat
  | JsonAclUpdated nat
  | JsonPoll string "PollFile option"
  | JsonUploaded string File
  | JsonUrl string
  | JsonUploadFiles "UploadTarget list"
  | JsonPrepare string string
  | Stream "byte list"

record Response =
  code :: nat
  headers :: "(string \<times> string) list"
  body :: Body

definition respond :: "nat \<Rightarrow> Body \<Rightarrow> Response" where
  "respond c b = \<lparr>code = c, headers = [], body = b\<rparr>"

definition internal_error :: Response where
  "internal_error = respond 500 (Text ''Internal Server Error'')"

text \<open>
  The Prisma calls the routes make. \<open>upsert\<close> is called with \<open>update: {}\<close> only:
  an existing row is left as it is. \<open>update\<close> throws when no row has the key; it and
  \<open>updateMany\<close> refresh \<open>updatedAt\<close> (\<open>@updatedAt\<close>).
\<close>

definition findUnique :: "File list \<Rightarrow> string \<Rightarrow> File option" where
  "findUnique fs k = find (\<lambda>f. key f = k) fs"

definition upsert :: "File \<Rightarrow> File list \<Rightarrow> File list" where
  "upsert create fs = (case findUnique fs (key create) of None \<Rightarrow> fs @ [create] | Some _ \<Rightarrow> fs)"

definition update ::
  "int \<Rightarrow> string \<Rightarrow> (File \<Rightarrow> File) \<Rightarrow> File list \<Rightarrow> error + File \<times> File list" where
  "update now k data fs =
     (case findUnique fs k of
        None \<Rightarrow> Inl (Error ''Record to update not found.'')
      | Some found \<Rightarrow>
          Inr ((data found)\<lparr>updatedAt := now\<rparr>,
               map (\<lambda>f. if key f = k then (data f)\<lparr>updatedAt := now\<rparr> else f) fs))"

definition updateMany :: "int \<Rightarrow> (File \<Rightarrow> bool) \<Rightarrow> (File \<Rightarrow> File) \<Rightarrow> File list \<Rightarrow> File list \<times> nat" where
  "updateMany now wh data fs =
     (map (\<lambda>f. if wh f then (data f)\<lparr>updatedAt := now\<rparr> else f) fs, length (filter wh fs))"

definition deleteMany :: "(File \<Rightarrow> bool) \<Rightarrow> File list \<Rightarrow> File list \<times> nat" where
  "deleteMany wh fs = (filter (\<lambda>f. \<not> wh f) fs, length (filter wh fs))"

text \<open>
  The local storage adapter: \<open>upload\<close> writes the bytes under the key and returns
  their SHA-256 in hexadecimal; \<open>delete\<close> removes them and ignores a missing file.
\<close>

definition storage_upload :: "Env \<Rightarrow> string \<Rightarrow> byte list \<Rightarrow> State \<Rightarrow> string \<times> State" where
  "storage_upload env k blob s = (SHA256_hex env blob, s\<lparr>uploads := (uploads s)(k \<mapsto> blob)\<rparr>)"

definition storage_delete :: "string \<Rightarrow> State \<Rightarrow> State" where
  "storage_delete k s = s\<lparr>uploads := (uploads s)(k := None)\<rparr>"

definition getPublicUrl :: "Env \<Rightarrow> string \<Rightarrow> string" where
  "getPublicUrl env k = BASE_URL env @ ''/f/'' @ k"

section \<open>Middleware\<close>

text \<open>
  lib/middleware.ts. A guard either answers itself or hands over to the route
  (\<open>next\<close>). An exception in a guard or a route is answered by the framework with
  status 500.
\<close>

definition authMiddleware :: "Env \<Rightarrow> string \<Rightarrow> string option \<Rightarrow> (Response \<times> 's) \<Rightarrow> 's \<Rightarrow> Response \<times> 's" where
  "authMiddleware env path authHeader next s =
     (if startsWith path ''/f/'' then next
      else
        (case authHeader of
           None \<Rightarrow> (respond 401 (JsonError ''Missing API key''), s)
         | Some h \<Rightarrow>
             if h = [] then (respond 401 (JsonError ''Missing API key''), s)
             else
               (case parseApiToken (base64_json env) h of
                  Inl e \<Rightarrow> (internal_error, s)
                | Inr None \<Rightarrow> (respond 401 (JsonError ''Invalid API token format''), s)
                | Inr (Some tokenData) \<Rightarrow>
                    if \<not> validateApiKey (apiKey tokenData) (API_SECRET env)
                    then (respond 403 (JsonError ''Invalid API key''), s)
                    else next)))"

definition ingestAuthMiddleware :: "Env \<Rightarrow> string \<Rightarrow> (Response \<times> 's) \<Rightarrow> 's \<Rightarrow> Response \<times> 's" where
  "ingestAuthMiddleware env url next s =
     (case verifySdkSignature (HMAC_SHA256 env) url (API_SECRET env) of
        Inl e \<Rightarrow> (internal_error, s)
      | Inr ok \<Rightarrow> if \<not> ok then (respond 403 (Text ''Invalid signature''), s) else next)"

section \<open>Ingest routes\<close>

text \<open>
  \<open>GET /:fileKey\<close> and \<open>PUT /:fileKey\<close>. The path parameter \<open>k\<close> is given with
  the request; the query is read from the request URL. The \<open>create\<close> object is built
  before the upsert runs, so a file name or type that does not decode throws whether or not
  the record exists; a size that is NaN is refused by the store. \<open>parseInt\<close> without a
  radix (the GET route) also reads a \<open>0x\<close> prefix as hexadecimal. \<open>rid\<close> is the
  row id the store would generate.
\<close>

fun decodeURIComponent :: "string \<Rightarrow> error + string" where
  "decodeURIComponent [] = Inr []"
| "decodeURIComponent (c # cs) =
     (if c = CHR ''%'' then
        (case cs of
           a # b # rest \<Rightarrow>
             (case (hexval a, hexval b) of
                (Some h, Some l) \<Rightarrow>
                  (case decodeURIComponent rest of
                     Inl e \<Rightarrow> Inl e
                   | Inr r \<Rightarrow> Inr (char_of (16 * h + l) # r))
              | _ \<Rightarrow> Inl (URIError ''URI malformed''))
         | _ \<Rightarrow> Inl (URIError ''URI malformed''))
      else
        (case decodeURIComponent cs of Inl e \<Rightarrow> Inl e | Inr r \<Rightarrow> Inr (c # r)))"

definition parseInt :: "string \<Rightarrow> int option" where
  "parseInt s =
     (let t = dropWhile is_space s;
          neg = (t \<noteq> [] \<and> hd t = CHR ''-'');
          r = (if t \<noteq> [] \<and> (hd t = CHR ''-'' \<or> hd t = CHR ''+'') then tl t else t)
      in if startsWith r ''0x'' \<or> startsWith r ''0X'' then
           (let ds = takeWhile (\<lambda>c. hexval c \<noteq> None) (drop 2 r);
                v = foldl (\<lambda>a c. 16 * a + (case hexval c of Some d \<Rightarrow> d | None \<Rightarrow> 0)) 0 ds
            in if ds = [] then None else Some (if neg then - int v else int v))
         else parseInt10 s)"

definition req_query :: "string \<Rightarrow> string \<Rightarrow> string option" where
  "req_query url k = (case URL_parse url of None \<Rightarrow> None | Some u \<Rightarrow> searchParams_get u k)"

definition query_or :: "string \<Rightarrow> string \<Rightarrow> string \<Rightarrow> string" where
  "query_or url k d = (case req_query url k of None \<Rightarrow> d | Some v \<Rightarrow> v)"

definition create_data ::
  "string \<Rightarrow> (string \<Rightarrow> int option) \<Rightarrow> string \<Rightarrow> string \<Rightarrow> string \<Rightarrow> int \<Rightarrow> error + File" where
  "create_data default_name parse url k rid now =
     (case decodeURIComponent (query_or url ''x-ut-file-name'' default_name) of
        Inl e \<Rightarrow> Inl e
      | Inr nm \<Rightarrow>
          (case decodeURIComponent (query_or url ''x-ut-file-type'' ''application/octet-stream'') of
             Inl e \<Rightarrow> Inl e
           | Inr ty \<Rightarrow>
               (case parse (query_or url ''x-ut-file-size'' ''0'') of
                  None \<Rightarrow> Inl (Error ''Invalid value for argument size'')
                | Some sz \<Rightarrow>
                    Inr \<lparr>id' = rid, customId = None, key = k, name = nm, size' = sz, type' = ty,
                         status = UPLOADING,
                         acl = (if req_query url ''x-ut-acl'' = Some ''public-read''
                                then PUBLIC_READ else PRIVATE),
                         contentDisposition =
                           Some (if req_query url ''x-ut-content-disposition'' = Some ''attachment''
                                 then ATTACHMENT else INLINE),
                         metadata = None, callbackUrl = None, callbackSlug = None,
                         fileHash = None, uploadedAt = None, createdAt = now, updatedAt = now\<rparr>)))"

definition ingest_get :: "Env \<Rightarrow> int \<Rightarrow> string \<Rightarrow> string \<Rightarrow> string \<Rightarrow> State \<Rightarrow> Response \<times> State" where
  "ingest_get env now rid url k s =
     ingestAuthMiddleware env url
       (case create_data ''unknown-file'' parseInt url k rid now of
          Inl e \<Rightarrow> (internal_error, s)
        | Inr c \<Rightarrow> (respond 200 (Text ''''), s\<lparr>files := upsert c (files s)\<rparr>))
       s"

definition ingest_put ::
  "Env \<Rightarrow> int \<Rightarrow> string \<Rightarrow> string \<Rightarrow> string \<Rightarrow> byte list \<Rightarrow> State \<Rightarrow> Response \<times> State" where
  "ingest_put env now rid url k blob s =
     ingestAuthMiddleware env url
       (case create_data ''unknown'' parseInt10 url k rid now of
          Inl e \<Rightarrow> (internal_error, s)
        | Inr c \<Rightarrow>
            let s1 = s\<lparr>files := upsert c (files s)\<rparr>;
                (hash, s2) = storage_upload env k blob s1
            in (case update now k
                       (\<lambda>f. f\<lparr>status := UPLOADED, fileHash := Some hash, uploadedAt := Some now\<rparr>)
                       (files s2) of
                  Inl e \<Rightarrow> (internal_error, s2)
                | Inr (updated, fs) \<Rightarrow>
                    (respond 200 (JsonUploaded (getPublicUrl env k) updated), s2\<lparr>files := fs\<rparr>)))
       s"

section \<open>Management routes\<close>

text \<open>
  The routes under \<open>/v6\<close> and \<open>/v7\<close>, behind \<open>authMiddleware\<close>, and
  \<open>/route-metadata\<close>, which has no guard. Request bodies are given as the validator
  hands them to the route. \<open>selector\<close> is the \<open>where\<close> clause
  \<open>u.fileKey ? {key} : {customId}\<close>; a body in which neither is set does not pass the
  validator (status 400).
\<close>

record DeleteFilesRequest =
  fileKeys :: "string list option"
  customIds :: "string list option"

definition deleteFiles :: "Env \<Rightarrow> string option \<Rightarrow> DeleteFilesRequest \<Rightarrow> State \<Rightarrow> Response \<times> State" where
  "deleteFiles env authHeader req s =
     authMiddleware env ''/v6/deleteFiles'' authHeader
       (case (case fileKeys req of
                Some ks \<Rightarrow> Some (\<lambda>f. key f \<in> set ks)
              | None \<Rightarrow>
                  (case customIds req of
                     Some cs \<Rightarrow> Some (\<lambda>f. case customId f of None \<Rightarrow> False | Some c \<Rightarrow> c \<in> set cs)
                   | None \<Rightarrow> None)) of
          None \<Rightarrow> (respond 400 (JsonError ''Invalid request''), s)
        | Some wh \<Rightarrow>
            let filesToDelete = filter wh (files s);
                s1 = fold (\<lambda>f. storage_delete (key f)) filesToDelete s;
                (fs, count) = deleteMany wh (files s1)
            in (respond 200 (JsonDeleted count), s1\<lparr>files := fs\<rparr>))
       s"

definition selector :: "string option \<Rightarrow> string option \<Rightarrow> (File \<Rightarrow> bool) option" where
  "selector fk cid =
     (let by_custom = (case cid of
                         Some c \<Rightarrow> if c \<noteq> [] then Some (\<lambda>f. customId f = Some c) else None
                       | None \<Rightarrow> None)
      in case fk of
           Some k \<Rightarrow> if k \<noteq> [] then Some (\<lambda>f. key f = k) else by_custom
         | None \<Rightarrow> by_custom)"

record RenameUpdate =
  renameFileKey :: "string option"
  renameCustomId :: "string option"
  newName :: string

fun rename_all :: "int \<Rightarrow> RenameUpdate list \<Rightarrow> File list \<Rightarrow> (File list \<times> nat) option" where
  "rename_all now [] fs = Some (fs, 0)"
| "rename_all now (u # us) fs =
     (case selector (renameFileKey u) (renameCustomId u) of
        None \<Rightarrow> None
      | Some wh \<Rightarrow>
          let (fs1, c) = updateMany now wh (\<lambda>f. f\<lparr>name := newName u\<rparr>) fs
          in (case rename_all now us fs1 of None \<Rightarrow> None | Some (fs2, n) \<Rightarrow> Some (fs2, c + n)))"

definition renameFiles :: "Env \<Rightarrow> int \<Rightarrow> string option \<Rightarrow> RenameUpdate list \<Rightarrow> State \<Rightarrow> Response \<times> State" where
  "renameFiles env now authHeader updates s =
     authMiddleware env ''/v6/renameFiles'' authHeader
       (case rename_all now updates (files s) of
          None \<Rightarrow> (respond 400 (JsonError ''Invalid request''), s)
        | Some (fs, renamedCount) \<Rightarrow> (respond 200 (JsonRenamed renamedCount), s\<lparr>files := fs\<rparr>))
       s"

record AclUpdate =
  aclFileKey :: "string option"
  aclCustomId :: "string option"
  newAcl :: string

fun acl_all :: "int \<Rightarrow> AclUpdate list \<Rightarrow> File list \<Rightarrow> (File list \<times> nat) option" where
  "acl_all now [] fs = Some (fs, 0)"
| "acl_all now (u # us) fs =
     (case selector (aclFileKey u) (aclCustomId u) of
        None \<Rightarrow> None
      | Some wh \<Rightarrow>
          let (fs1, c) = updateMany now wh
                (\<lambda>f. f\<lparr>acl := (if newAcl u = ''public-read'' then PUBLIC_READ else PRIVATE)\<rparr>) fs
          in (case acl_all now us fs1 of None \<Rightarrow> None | Some (fs2, n) \<Rightarrow> Some (fs2, c + n)))"

definition updateACL :: "Env \<Rightarrow> int \<Rightarrow> string option \<Rightarrow> AclUpdate list \<Rightarrow> State \<Rightarrow> Response \<times> State" where
  "updateACL env now authHeader updates s =
     authMiddleware env ''/v6/updateACL'' authHeader
       (case acl_all now updates (files s) of
          None \<Rightarrow> (respond 400 (JsonError ''Invalid request''), s)
        | Some (fs, updatedCount) \<Rightarrow> (respond 200 (JsonAclUpdated updatedCount), s\<lparr>files := fs\<rparr>))
       s"

definition pollUpload :: "Env \<Rightarrow> string option \<Rightarrow> string \<Rightarrow> State \<Rightarrow> Response \<times> State" where
  "pollUpload env authHeader k s =
     authMiddleware env (''/v6/pollUpload/'' @ k) authHeader
       (case findUnique (files s) k of
          None \<Rightarrow> (respond 404 (JsonError ''File not found''), s)
        | Some file \<Rightarrow>
            let isDone = (status file = UPLOADED)
            in (respond 200
                  (JsonPoll (if isDone then ''done'' else ''still working'')
                     (if isDone
                      then Some \<lparr>pollFileKey = key file, pollFileName = name file,
                                  pollFileSize = size' file, pollFileType = type' file,
                                  pollFileUrl = getPublicUrl env (key file),
                                  pollCustomId = customId file\<rparr>
                      else None)),
                s))
       s"

definition completeMultipart :: "Env \<Rightarrow> int \<Rightarrow> string option \<Rightarrow> string \<Rightarrow> State \<Rightarrow> Response \<times> State" where
  "completeMultipart env now authHeader k s =
     authMiddleware env ''/v6/completeMultipart'' authHeader
       (case update now k (\<lambda>f. f\<lparr>status := UPLOADED, uploadedAt := Some now\<rparr>) (files s) of
          Inl e \<Rightarrow> (internal_error, s)
        | Inr (updated, fs) \<Rightarrow> (respond 200 JsonSuccess, s\<lparr>files := fs\<rparr>))
       s"

definition failureCallback :: "Env \<Rightarrow> int \<Rightarrow> string option \<Rightarrow> string \<Rightarrow> State \<Rightarrow> Response \<times> State" where
  "failureCallback env now authHeader k s =
     authMiddleware env ''/v6/failureCallback'' authHeader
       (case update now k (\<lambda>f. f\<lparr>status := FAILED\<rparr>) (files s) of
          Inl e \<Rightarrow> (internal_error, s)
        | Inr (updated, fs) \<Rightarrow> (respond 200 JsonSuccess, s\<lparr>files := fs\<rparr>))
       s"

record RouteMetadataRequest =
  routeFileKeys :: "string list"
  routeMetadata :: "string option"
  routeCallbackUrl :: string
  routeCallbackSlug :: string

definition route_metadata :: "int \<Rightarrow> RouteMetadataRequest \<Rightarrow> State \<Rightarrow> Response \<times> State" where
  "route_metadata now req s =
     (let (fs, count) = updateMany now (\<lambda>f. key f \<in> set (routeFileKeys req))
                          (\<lambda>f. f\<lparr>metadata := routeMetadata req,
                                 callbackUrl := Some (routeCallbackUrl req),
                                 callbackSlug := Some (routeCallbackSlug req)\<rparr>)
                          (files s)
      in (respond 200 JsonOk, s\<lparr>files := fs\<rparr>))"

record FileInfo =
  infoName :: string
  infoSize :: int
  infoType :: string
  infoCustomId :: "string option"

definition upload_target ::
  "Env \<Rightarrow> int \<Rightarrow> string option \<Rightarrow> string \<Rightarrow> string \<times> FileInfo \<Rightarrow> error + UploadTarget" where
  "upload_target env now aclv cd kf =
     (let (k, fileInfo) = kf;
          aclValue = (if aclv = Some ''public-read'' then ''public-read'' else ''private'');
          cdValue = (if cd = ''attachment'' then ''attachment'' else ''inline'')
      in case generateSignedUploadUrl (HMAC_SHA256 env) (API_SECRET env) now
                [(''key'', k),
                 (''x-ut-file-name'', infoName fileInfo),
                 (''x-ut-file-size'', Number_toString (infoSize fileInfo)),
                 (''x-ut-file-type'', infoType fileInfo),
                 (''x-ut-acl'', aclValue),
                 (''x-ut-content-disposition'', cdValue)]
                3600 of
           Inl e \<Rightarrow> Inl e
         | Inr url \<Rightarrow>
             Inr \<lparr>targetKey = k, targetFileName = infoName fileInfo,
                  targetFileType = infoType fileInfo, targetFileUrl = getPublicUrl env k,
                  targetUrl = url, targetCustomId = infoCustomId fileInfo,
                  targetContentDisposition = cd, pollingJwt = ''not-implemented'',
                  pollingUrl = BASE_URL env @ ''/v6/pollUpload/'' @ k\<rparr>)"

fun upload_targets ::
  "Env \<Rightarrow> int \<Rightarrow> string option \<Rightarrow> string \<Rightarrow> (string \<times> FileInfo) list \<Rightarrow> error + UploadTarget list" where
  "upload_targets env now aclv cd [] = Inr []"
| "upload_targets env now aclv cd (kf # rest) =
     (case upload_target env now aclv cd kf of
        Inl e \<Rightarrow> Inl e
      | Inr t \<Rightarrow>
          (case upload_targets env now aclv cd rest of Inl e \<Rightarrow> Inl e | Inr ts \<Rightarrow> Inr (t # ts)))"

definition uploadFiles ::
  "Env \<Rightarrow> int \<Rightarrow> string option \<Rightarrow> (string \<times> FileInfo) list \<Rightarrow> string option \<Rightarrow> string \<Rightarrow> State
   \<Rightarrow> Response \<times> State" where
  "uploadFiles env now authHeader keyed_files aclv cd s =
     authMiddleware env ''/v6/uploadFiles'' authHeader
       (case upload_targets env now aclv cd keyed_files of
          Inl e \<Rightarrow> (internal_error, s)
        | Inr responseData \<Rightarrow> (respond 200 (JsonUploadFiles responseData), s))
       s"

record PrepareUploadRequest =
  prepFileName :: string
  prepFileSize :: int
  prepFileType :: "string option"
  prepContentDisposition :: "string option"
  prepAcl :: "string option"
  prepExpiresIn :: int

definition prepareUpload ::
  "Env \<Rightarrow> int \<Rightarrow> string option \<Rightarrow> string \<Rightarrow> PrepareUploadRequest \<Rightarrow> State \<Rightarrow> Response \<times> State" where
  "prepareUpload env now authHeader k req s =
     authMiddleware env ''/v7/prepareUpload'' authHeader
       (case generateSignedUploadUrl (HMAC_SHA256 env) (API_SECRET env) now
                [(''key'', k),
                 (''x-ut-file-name'', prepFileName req),
                 (''x-ut-file-size'', Number_toString (prepFileSize req)),
                 (''x-ut-file-type'',
                    (case prepFileType req of None \<Rightarrow> ''application/octet-stream'' | Some t \<Rightarrow> t)),
                 (''x-ut-acl'', (case prepAcl req of None \<Rightarrow> ''private'' | Some a \<Rightarrow> a)),
                 (''x-ut-content-disposition'',
                    (case prepContentDisposition req of None \<Rightarrow> ''inline'' | Some d \<Rightarrow> d))]
                (prepExpiresIn req) of
          Inl e \<Rightarrow> (internal_error, s)
        | Inr url \<Rightarrow> (respond 200 (JsonPrepare k url), s))
       s"

definition requestFileAccess ::
  "Env \<Rightarrow> int \<Rightarrow> string option \<Rightarrow> string option \<Rightarrow> string option \<Rightarrow> int \<Rightarrow> State \<Rightarrow> Response \<times> State" where
  "requestFileAccess env now authHeader fk cid expiresIn s =
     authMiddleware env ''/v6/requestFileAccess'' authHeader
       (case selector fk cid of
          None \<Rightarrow> (respond 400 (JsonError ''Invalid request''), s)
        | Some wh \<Rightarrow>
            (case find wh (files s) of
               None \<Rightarrow> (internal_error, s)
             | Some file \<Rightarrow>
                 (case (if acl file = PRIVATE
                        then getSignedUrl (HMAC_SHA256 env) (BASE_URL env) (API_SECRET env) now
                               (key file) (TimeNumber expiresIn) None
                        else Inr (getPublicUrl env (key file))) of
                    Inl e \<Rightarrow> (internal_error, s)
                  | Inr url \<Rightarrow> (respond 200 (JsonUrl url), s))))
       s"

section \<open>CDN read\<close>

text \<open>
  \<open>GET /f/:fileKey\<close>. \<open>new URL(c.req.url, BASE_URL)\<close> is evaluated only for a
  private record; the request URL is absolute, so the base is not used.
\<close>

definition disposition_text :: "ContentDisposition option \<Rightarrow> string" where
  "disposition_text d =
     (case d of None \<Rightarrow> ''null'' | Some INLINE \<Rightarrow> ''INLINE'' | Some ATTACHMENT \<Rightarrow> ''ATTACHMENT'')"

definition cdn_read :: "Env \<Rightarrow> int \<Rightarrow> string \<Rightarrow> string \<Rightarrow> State \<Rightarrow> Response \<times> State" where
  "cdn_read env now url k s =
     (case findUnique (files s) k of
        None \<Rightarrow> (respond 404 (JsonError ''File not found''), s)
      | Some file \<Rightarrow>
          (case (if acl file = PRIVATE then
                   (case URL_parse url of
                      None \<Rightarrow> Some internal_error
                    | Some u \<Rightarrow>
                        if \<not> verifyCdnSignedUrl (HMAC_SHA256 env) now (URL_toString u) (API_SECRET env)
                        then Some (respond 403 (JsonError ''Invalid or expired signed URL''))
                        else None)
                 else None) of
             Some refusal \<Rightarrow> (refusal, s)
           | None \<Rightarrow>
               (case uploads s k of
                  None \<Rightarrow> (respond 404 (JsonError ''File not in storage''), s)
                | Some bytes \<Rightarrow>
                    (\<lparr>code = 200,
                      headers =
                        [(''Content-Type'', type' file),
                         (''Content-Disposition'',
                            disposition_text (contentDisposition file) @ ''; filename=''
                            @ [CHR 0x22] @ name file @ [CHR 0x22]),
                         (''Cache-Control'',
                            if acl file = PRIVATE then ''private, no-store''
                            else ''public, max-age=31536000, immutable'')],
                      body = Stream bytes\<rparr>,
                     s))))"

section \<open>Runs of the server\<close>

text \<open>
  The requests that can change the state, and the states the server reaches from the empty
  one. \<open>authorized\<close> says that a header passes \<open>authMiddleware\<close>.
\<close>

datatype Event =
    IngestGet int string string string
  | IngestPut int string string string "byte list"
  | DeleteFiles "string option" DeleteFilesRequest
  | RenameFiles int "string option" "RenameUpdate list"
  | UpdateACL int "string option" "AclUpdate list"
  | CompleteMultipart int "string option" string
  | FailureCallback int "string option" string
  | RouteMetadata int RouteMetadataRequest

fun handle :: "Env \<Rightarrow> Event \<Rightarrow> State \<Rightarrow> Response \<times> State" where
  "handle env (IngestGet now rid url k) s = ingest_get env now rid url k s"
| "handle env (IngestPut now rid url k blob) s = ingest_put env now rid url k blob s"
| "handle env (DeleteFiles authHeader req) s = deleteFiles env authHeader req s"
| "handle env (RenameFiles now authHeader updates) s = renameFiles env now authHeader updates s"
| "handle env (UpdateACL now authHeader updates) s = updateACL env now authHeader updates s"
| "handle env (CompleteMultipart now authHeader k) s = completeMultipart env now authHeader k s"
| "handle env (FailureCallback now authHeader k) s = failureCallback env now authHeader k s"
| "handle env (RouteMetadata now req) s = route_metadata now req s"

definition step :: "Env \<Rightarrow> Event \<Rightarrow> State \<Rightarrow> State" where
  "step env ev s = snd (handle env ev s)"

fun run :: "Env \<Rightarrow> Event list \<Rightarrow> State \<Rightarrow> State" where
  "run env [] s = s"
| "run env (ev # evs) s = run env evs (step env ev s)"

definition reachable :: "Env \<Rightarrow> State \<Rightarrow> bool" where
  "reachable env s = (\<exists>evs. s = run env evs initial)"

definition authorized :: "Env \<Rightarrow> string option \<Rightarrow> bool" where
  "authorized env authHeader =
     (case authHeader of
        None \<Rightarrow> False
      | Some h \<Rightarrow>
          h \<noteq> [] \<and>
          (case parseApiToken (base64_json env) h of
             Inr (Some tokenData) \<Rightarrow> validateApiKey (apiKey tokenData) (API_SECRET env)
           | _ \<Rightarrow> False))"

section \<open>A small configuration for examples\<close>

text \<open>
  A two-byte stand-in for the MAC (the lengths of secret and payload) and a one-byte
  stand-in for the hash, small enough to run concrete requests through the model.
\<close>

definition demo_mac :: hmac_sha256 where
  "demo_mac secret payload = [of_nat (length secret), of_nat (length payload)]"

definition demo_env :: Env where
  "demo_env = \<lparr>API_SECRET = ''sk_test'', BASE_URL = ''http://localhost:3000'', APP_ID = ''self-hosted'',
     HMAC_SHA256 = demo_mac, SHA256_hex = (\<lambda>bs. toHex [of_nat (length bs)]),
     base64_json = (\<lambda>t. None)\<rparr>"

definition demo_put_url :: string where
  "demo_put_url = ''http://localhost:3000/abc?x-ut-file-name=a.txt&signature=hmac-sha256%3D072e''"

definition demo_public_url :: string where
  "demo_public_url = ''http://localhost:3000/pub?x-ut-acl=public-read&signature=hmac-sha256%3D072e''"

definition demo_read_url :: string where
  "demo_read_url = ''http://localhost:3000/f/abc?expires=9&signature=hmac-sha256%3D0725''"

definition demo_uploading :: State where
  "demo_uploading = run demo_env [IngestGet 5 ''row1'' demo_put_url ''abc''] initial"

definition demo_uploaded :: State where
  "demo_uploaded = run demo_env [IngestPut 5 ''row1'' demo_put_url ''abc'' [1, 2, 3]] initial"

definition demo_failed :: State where
  "demo_failed = run demo_env [FailureCallback 6 (Some ''sk_test'') ''abc''] demo_uploaded"

definition demo_completed :: State where
  "demo_completed = run demo_env [CompleteMultipart 6 (Some ''sk_test'') ''abc''] demo_uploading"

definition demo_public :: State where
  "demo_public = run demo_env [IngestPut 5 ''row2'' demo_public_url ''pub'' [4, 5]] initial"

section \<open>Notions used in the proofs\<close>

text \<open>
  \<open>enc_char\<close>: the characters the serialiser can produce for a name or a value.
  \<open>segment\<close>: one serialised pair. \<open>synced\<close>: a URL object whose query string is
  the serialisation of its parameter list, which is the state after any mutation of
  \<open>searchParams\<close>. \<open>lifecycle_inv\<close>: what holds of every row along every run;
  \<open>all_rows\<close> lifts a property of rows to states.
\<close>

definition enc_char :: "char \<Rightarrow> bool" where
  "enc_char c = (is_alnum c \<or> c \<in> set ''*-._+%'')"

definition segment :: "string \<times> string \<Rightarrow> string" where
  "segment p = urlencoded_string (fst p) @ ''='' @ urlencoded_string (snd p)"

definition synced :: "URL \<Rightarrow> bool" where
  "synced u \<longleftrightarrow>
     has_scheme (origin_path u) \<and> CHR ''?'' \<notin> set (origin_path u) \<and> CHR ''#'' \<notin> set (origin_path u)
     \<and> query u = (if searchParams u = [] then None else Some (urlencoded_serialize (searchParams u)))"

definition lifecycle_inv :: "File \<Rightarrow> bool" where
  "lifecycle_inv f \<longleftrightarrow>
     (status f = UPLOADING \<longrightarrow> fileHash f = None \<and> uploadedAt f = None)
     \<and> (status f = UPLOADED \<longrightarrow> uploadedAt f \<noteq> None)
     \<and> (fileHash f \<noteq> None \<longrightarrow> uploadedAt f \<noteq> None)
     \<and> status f \<noteq> DELETION_PENDING"

definition all_rows :: "(File \<Rightarrow> bool) \<Rightarrow> State \<Rightarrow> bool" where
  "all_rows P s = (\<forall>f \<in> set (files s). P f)"

chapter \<open>Properties\<close>

section \<open>Text formats\<close>

lemma hexval_hexdigit: "n < 16 \<Longrightarrow> hexval (hexdigit n) = Some n"
  by (auto simp: hexval_def hexdigit_def Let_def)

lemma hexval_HEXDIGIT: "n < 16 \<Longrightarrow> hexval (HEXDIGIT n) = Some n"
  by (auto simp: hexval_def HEXDIGIT_def Let_def)

lemma of_char_HEXDIGIT: "n < 16 \<Longrightarrow> (of_char (HEXDIGIT n) :: nat) = (if n < 10 then 48 + n else 55 + n)"
  by (auto simp: HEXDIGIT_def)

lemma byte_hex:
  "padStart2 (toString16 (unat (b::byte))) = [hexdigit (unat b div 16), hexdigit (unat b mod 16)]"
proof -
  have lt: "unat b < 256" using unsigned_less [of b, where ?'a = nat] by simp
  have z: "CHR ''0'' = char_of (48::nat)" by code_simp
  show ?thesis
  proof (cases "unat b < 16")
    case True
    then show ?thesis by (simp add: toString16.simps [of "unat b"] padStart2_def hexdigit_def z)
  next
    case False
    with lt have "unat b div 16 < 16" by simp
    with False show ?thesis
      by (simp add: toString16.simps [of "unat b"] toString16.simps [of "unat b div 16"] padStart2_def)
  qed
qed

lemma Buffer_from_hex_toHex: "Buffer_from_hex (toHex bs) = bs"
proof (induction bs)
  case Nil
  then show ?case by (simp add: toHex_def)
next
  case (Cons b bs)
  have lt: "unat b < 256" using unsigned_less [of b, where ?'a = nat] by simp
  then have d: "unat b div 16 < 16" by simp
  have "toHex (b # bs) = hexdigit (unat b div 16) # hexdigit (unat b mod 16) # toHex bs"
    by (simp add: toHex_def byte_hex)
  with Cons d show ?case by (simp add: hexval_hexdigit)
qed

lemma of_char_div16: "(of_char c :: nat) div 16 < 16"
proof -
  have "(of_char c :: nat) < 256" by simp
  then show ?thesis by arith
qed

lemma enc_char_HEXDIGIT: "n < 16 \<Longrightarrow> enc_char (HEXDIGIT n)"
  by (auto simp: enc_char_def is_alnum_def is_alpha_def is_digit_def of_char_HEXDIGIT Let_def)

lemma enc_char_byte: "x \<in> set (urlencoded_byte c) \<Longrightarrow> enc_char x"
proof -
  have "(of_char c :: nat) div 16 < 16" by (rule of_char_div16)
  moreover assume "x \<in> set (urlencoded_byte c)"
  ultimately show ?thesis
    by (auto simp: urlencoded_byte_def percent_byte_def enc_char_HEXDIGIT split: if_splits)
      (auto simp: enc_char_def)
qed

lemma enc_char_string: "x \<in> set (urlencoded_string s) \<Longrightarrow> enc_char x"
  by (auto simp: urlencoded_string_def dest: enc_char_byte)

lemma enc_char_not:
  "enc_char x \<Longrightarrow> x \<noteq> CHR ''&'' \<and> x \<noteq> CHR ''='' \<and> x \<noteq> CHR ''?'' \<and> x \<noteq> CHR ''#''"
  by (auto simp: enc_char_def is_alnum_def is_alpha_def is_digit_def)

lemma percent_decode_plain:
  "c \<noteq> CHR ''%'' \<Longrightarrow> percent_decode (c # cs) = c # percent_decode cs"
  by simp

lemma HEXDIGIT_not_plus: "n < 16 \<Longrightarrow> HEXDIGIT n \<noteq> CHR ''+''"
proof
  assume n: "n < 16" and "HEXDIGIT n = CHR ''+''"
  then have "(of_char (HEXDIGIT n) :: nat) = of_char CHR ''+''" by simp
  with n show False by (simp add: of_char_HEXDIGIT split: if_splits)
qed

lemma takeWhile_sep: "c \<notin> set a \<Longrightarrow> takeWhile (\<lambda>x. x \<noteq> c) (a @ c # r) = a"
  by (induction a) auto

lemma dropWhile_sep: "c \<notin> set a \<Longrightarrow> dropWhile (\<lambda>x. x \<noteq> c) (a @ c # r) = c # r"
  by (induction a) auto

lemma join_Cons: "ys \<noteq> [] \<Longrightarrow> join sep (x # ys) = x @ sep @ join sep ys"
  by (cases ys) auto

lemma decode_byte:
  "percent_decode (plus_to_space (urlencoded_byte c @ rest)) = c # percent_decode (plus_to_space rest)"
proof -
  have d: "(of_char c :: nat) div 16 < 16" by (rule of_char_div16)
  have m: "(of_char c :: nat) mod 16 < 16" by simp
  have recode: "char_of (16 * ((of_char c :: nat) div 16) + of_char c mod 16) = c" by simp
  show ?thesis
  proof (cases "c = CHR '' ''")
    case True
    then show ?thesis by (simp add: urlencoded_byte_def plus_to_space_def)
  next
    case sp: False
    show ?thesis
    proof (cases "is_alnum c \<or> c \<in> set ''*-._''")
      case True
      then have "c \<noteq> CHR ''%''" "c \<noteq> CHR ''+''"
        by (auto simp: is_alnum_def is_alpha_def is_digit_def)
      with sp True show ?thesis by (simp add: urlencoded_byte_def plus_to_space_def)
    next
      case False
      with sp have e: "urlencoded_byte c = percent_byte c" by (simp add: urlencoded_byte_def)
      show ?thesis
        unfolding e percent_byte_def plus_to_space_def
        using HEXDIGIT_not_plus [OF d] HEXDIGIT_not_plus [OF m] recode
        by (simp add: hexval_HEXDIGIT [OF d] hexval_HEXDIGIT [OF m])
    qed
  qed
qed

lemma decode_string: "percent_decode (plus_to_space (urlencoded_string s)) = s"
proof (induction s)
  case Nil
  then show ?case by (simp add: urlencoded_string_def plus_to_space_def)
next
  case (Cons c s)
  have "urlencoded_string (c # s) = urlencoded_byte c @ urlencoded_string s"
    by (simp add: urlencoded_string_def)
  with Cons show ?case by (simp add: decode_byte)
qed

lemma split_on_no_sep: "c \<notin> set a \<Longrightarrow> split_on c a = [a]"
  by (induction a) auto

lemma split_on_append: "c \<notin> set a \<Longrightarrow> split_on c (a @ c # rest) = a # split_on c rest"
  by (induction a) auto

lemma serialize_segments: "urlencoded_serialize l = join ''&'' (map segment l)"
  by (simp add: urlencoded_serialize_def segment_def [abs_def] case_prod_unfold)

lemma segment_no_amp: "CHR ''&'' \<notin> set (segment p)"
  using enc_char_not enc_char_string by (fastforce simp: segment_def)

lemma segment_nonempty: "segment p \<noteq> []"
  by (simp add: segment_def)

lemma pair_segment: "urlencoded_pair (segment p) = p"
proof -
  have n: "CHR ''='' \<notin> set (urlencoded_string (fst p))"
    using enc_char_not enc_char_string by blast
  then have t: "takeWhile (\<lambda>c. c \<noteq> CHR ''='') (segment p) = urlencoded_string (fst p)"
    by (simp add: segment_def takeWhile_sep)
  from n have d: "dropWhile (\<lambda>c. c \<noteq> CHR ''='') (segment p) = CHR ''='' # urlencoded_string (snd p)"
    by (simp add: segment_def dropWhile_sep)
  show ?thesis by (simp add: urlencoded_pair_def t d decode_string)
qed

lemma split_join_segments:
  "l \<noteq> [] \<Longrightarrow> split_on CHR ''&'' (join ''&'' (map segment l)) = map segment l"
proof (induction l)
  case Nil
  then show ?case by simp
next
  case (Cons x l)
  show ?case
  proof (cases "l = []")
    case True
    then show ?thesis by (simp add: split_on_no_sep segment_no_amp)
  next
    case False
    with Cons show ?thesis by (simp add: join_Cons split_on_append segment_no_amp)
  qed
qed

theorem urlencoded_parse_serialize: "urlencoded_parse (urlencoded_serialize l) = l"
proof (cases "l = []")
  case True
  then show ?thesis by (simp add: urlencoded_parse_def urlencoded_serialize_def)
next
  case False
  then have "split_on CHR ''&'' (urlencoded_serialize l) = map segment l"
    by (simp add: serialize_segments split_join_segments)
  then show ?thesis
    by (simp add: urlencoded_parse_def segment_nonempty pair_segment o_def map_idI)
qed

lemma join_segments_nonempty:
  assumes "l \<noteq> []"
  shows "join sep (map segment l) \<noteq> []"
proof (cases l)
  case Nil
  with assms show ?thesis by simp
next
  case (Cons p ps)
  then show ?thesis by (cases ps) (auto simp: segment_nonempty)
qed

lemma serialize_empty_iff: "urlencoded_serialize l = [] \<longleftrightarrow> l = []"
  using join_segments_nonempty [of l "''&''"] by (auto simp: serialize_segments)

lemma enc_char_serialize:
  "x \<in> set (urlencoded_serialize l) \<Longrightarrow> enc_char x \<or> x = CHR ''&'' \<or> x = CHR ''=''"
proof (induction l)
  case Nil
  then show ?case by (simp add: urlencoded_serialize_def)
next
  case (Cons p l)
  show ?case
  proof (cases "l = []")
    case True
    with Cons.prems show ?thesis
      by (auto simp: serialize_segments segment_def dest: enc_char_string)
  next
    case False
    with Cons show ?thesis
      by (auto simp: serialize_segments join_Cons segment_def dest: enc_char_string)
  qed
qed

lemma scheme_state_append: "scheme_state s \<Longrightarrow> scheme_state (s @ t)"
  by (induction s) (auto split: if_splits)

lemma has_scheme_append: "has_scheme s \<Longrightarrow> has_scheme (s @ t)"
  by (cases s) (auto simp: has_scheme_def scheme_state_append)

lemma scheme_state_takeWhile:
  "scheme_state s \<Longrightarrow> c \<noteq> CHR '':'' \<Longrightarrow> \<not> (is_alnum c \<or> c \<in> set ''+-.'') \<Longrightarrow>
   scheme_state (takeWhile (\<lambda>x. x \<noteq> c) s)"
  by (induction s) (auto split: if_splits)

lemma has_scheme_takeWhile:
  "has_scheme s \<Longrightarrow> c \<noteq> CHR '':'' \<Longrightarrow> \<not> (is_alnum c \<or> c \<in> set ''+-.'') \<Longrightarrow>
   has_scheme (takeWhile (\<lambda>x. x \<noteq> c) s)"
  by (cases s) (auto simp: has_scheme_def scheme_state_takeWhile is_alnum_def)

lemma split_first_absent: "c \<notin> set s \<Longrightarrow> split_first c s = (s, None)"
  by (auto simp: split_first_def takeWhile_eq_all_conv)

lemma split_first_present: "c \<notin> set a \<Longrightarrow> split_first c (a @ c # r) = (a, Some r)"
  by (simp add: split_first_def takeWhile_sep dropWhile_sep)

lemma serialize_no_delims:
  "CHR ''?'' \<notin> set (urlencoded_serialize l) \<and> CHR ''#'' \<notin> set (urlencoded_serialize l)"
  using enc_char_serialize [of _ l] enc_char_not by fastforce

lemma URL_parse_synced: "URL_parse s = Some u \<Longrightarrow>
  has_scheme (origin_path u) \<and> CHR ''?'' \<notin> set (origin_path u) \<and> CHR ''#'' \<notin> set (origin_path u)"
proof -
  assume a: "URL_parse s = Some u"
  then have hs: "has_scheme s" by (auto simp: URL_parse_def split: if_splits)
  have q: "\<not> (is_alnum CHR ''?'' \<or> CHR ''?'' \<in> set ''+-.'')" "\<not> (is_alnum CHR ''#'' \<or> CHR ''#'' \<in> set ''+-.'')"
    by (auto simp: is_alnum_def is_alpha_def is_digit_def)
  from a hs have op: "origin_path u = takeWhile (\<lambda>x. x \<noteq> CHR ''?'') (takeWhile (\<lambda>x. x \<noteq> CHR ''#'') s)"
    by (auto simp: URL_parse_def split_first_def Let_def)
  have h1: "has_scheme (takeWhile (\<lambda>x. x \<noteq> CHR ''#'') s)"
    by (rule has_scheme_takeWhile [OF hs _ q(2)]) simp
  have "has_scheme (origin_path u)"
    unfolding op by (rule has_scheme_takeWhile [OF h1 _ q(1)]) simp
  moreover have "CHR ''?'' \<notin> set (origin_path u)"
    unfolding op by (auto dest: set_takeWhileD)
  moreover have "CHR ''#'' \<notin> set (origin_path u)"
    unfolding op by (auto dest!: set_takeWhileD)
  ultimately show ?thesis by simp
qed

lemma synced_update:
  "has_scheme (origin_path u) \<Longrightarrow> CHR ''?'' \<notin> set (origin_path u) \<Longrightarrow> CHR ''#'' \<notin> set (origin_path u)
   \<Longrightarrow> synced (update_steps l u)"
  by (simp add: synced_def update_steps_def Let_def serialize_empty_iff)

theorem URL_parse_toString:
  assumes "synced u"
  shows "URL_parse (URL_toString u) = Some u"
proof -
  let ?l = "searchParams u"
  let ?q = "case query u of None \<Rightarrow> [] | Some q \<Rightarrow> CHR ''?'' # q"
  let ?f = "case fragment u of None \<Rightarrow> [] | Some f \<Rightarrow> CHR ''#'' # f"
  from assms have hs: "has_scheme (origin_path u)" and nq: "CHR ''?'' \<notin> set (origin_path u)"
    and nh: "CHR ''#'' \<notin> set (origin_path u)"
    and qu: "query u = (if ?l = [] then None else Some (urlencoded_serialize ?l))"
    by (auto simp: synced_def)
  have hs': "has_scheme (URL_toString u)"
    unfolding URL_toString_def using hs by (rule has_scheme_append)
  have nhq: "CHR ''#'' \<notin> set (origin_path u @ ?q)"
    using nh qu serialize_no_delims [of ?l] by (auto split: if_splits)
  have s1: "split_first CHR ''#'' (URL_toString u) = (origin_path u @ ?q, fragment u)"
  proof (cases "fragment u")
    case None
    with nhq show ?thesis by (simp add: URL_toString_def split_first_absent)
  next
    case (Some f)
    with nhq show ?thesis
      using split_first_present [of "CHR ''#''" "origin_path u @ ?q" f]
      by (simp add: URL_toString_def)
  qed
  have s0: "split_first CHR ''?'' (origin_path u @ ?q) = (origin_path u, query u)"
  proof (cases "query u")
    case None
    with nq show ?thesis by (simp add: split_first_absent)
  next
    case (Some q)
    with nq show ?thesis by (simp add: split_first_present)
  qed
  have sp: "(case query u of None \<Rightarrow> [] | Some qs \<Rightarrow> urlencoded_parse qs) = ?l"
    using qu by (simp add: urlencoded_parse_serialize)
  show ?thesis
    unfolding URL_parse_def using hs' by (simp add: s1 s0 sp)
qed

lemma digit_char: "k < 10 \<Longrightarrow> is_digit (char_of (48 + k)) \<and> digit_value (char_of (48 + k)) = k"
  by (simp add: is_digit_def digit_value_def)

lemma digits_value_snoc: "digits_value (ds @ [c]) = 10 * digits_value ds + digit_value c"
  by (simp add: digits_value_def)

lemma digits10_props:
  "digits10 n \<noteq> [] \<and> list_all is_digit (digits10 n) \<and> digits_value (digits10 n) = n"
proof (induction n rule: digits10.induct)
  case (1 n)
  show ?case
  proof (cases "n < 10")
    case True
    then show ?thesis
      using digit_char [of n] by (simp add: digits10.simps [of n] digits_value_def)
  next
    case False
    with 1 have ih: "list_all is_digit (digits10 (n div 10))"
      "digits_value (digits10 (n div 10)) = n div 10" by auto
    have m: "n mod 10 < 10" by simp
    from False ih digit_char [OF m] show ?thesis
      by (simp add: digits10.simps [of n] digits_value_snoc)
  qed
qed

lemma takeWhile_all: "list_all P xs \<Longrightarrow> takeWhile P xs = xs"
  by (induction xs) auto

lemma is_digit_not: "is_digit c \<Longrightarrow> \<not> is_space c \<and> c \<noteq> CHR ''-'' \<and> c \<noteq> CHR ''+''"
  by (auto simp: is_digit_def is_space_def)

lemma parseInt10_digits:
  assumes "ds \<noteq> []" "list_all is_digit ds"
  shows "parseInt10 ds = Some (int (digits_value ds))"
proof -
  from assms obtain c cs where e: "ds = c # cs" by (cases ds) auto
  with assms have "is_digit c" by simp
  then have c: "\<not> is_space c" "c \<noteq> CHR ''-''" "c \<noteq> CHR ''+''" using is_digit_not by auto
  have d: "dropWhile is_space ds = ds" using c e by simp
  have h: "hd ds \<noteq> CHR ''-''" "hd ds \<noteq> CHR ''+''" using c e by simp_all
  have t: "takeWhile is_digit ds = ds" using assms by (simp add: takeWhile_all)
  show ?thesis
    unfolding parseInt10_def d Let_def using h assms(1) by (simp add: t)
qed

lemma parseInt10_minus_digits:
  assumes "ds \<noteq> []" "list_all is_digit ds"
  shows "parseInt10 (CHR ''-'' # ds) = Some (- int (digits_value ds))"
proof -
  have "\<not> is_space CHR ''-''" by (simp add: is_space_def)
  then have d: "dropWhile is_space (CHR ''-'' # ds) = CHR ''-'' # ds" by simp
  have t: "takeWhile is_digit ds = ds" using assms by (simp add: takeWhile_all)
  show ?thesis
    unfolding parseInt10_def d Let_def using assms(1) by (simp add: t)
qed

theorem parseInt10_Number_toString: "parseInt10 (Number_toString i) = Some i"
proof (cases "i < 0")
  case True
  have "parseInt10 (CHR ''-'' # digits10 (nat (- i))) = Some (- int (digits_value (digits10 (nat (- i)))))"
    using digits10_props [of "nat (- i)"] by (intro parseInt10_minus_digits) simp_all
  with True show ?thesis using digits10_props [of "nat (- i)"] by (simp add: Number_toString_def)
next
  case False
  have "parseInt10 (digits10 (nat i)) = Some (int (digits_value (digits10 (nat i))))"
    using digits10_props [of "nat i"] by (intro parseInt10_digits) simp_all
  with False show ?thesis using digits10_props [of "nat i"] by (simp add: Number_toString_def)
qed

lemma toString16_small: "n < 16 \<Longrightarrow> toString16 n = [hexdigit n]"
  by (simp add: toString16.simps [of n])

lemma toString16_byte: "16 \<le> n \<Longrightarrow> n < 256 \<Longrightarrow> toString16 n = [hexdigit (n div 16), hexdigit (n mod 16)]"
  by (simp add: toString16.simps [of n] toString16_small)

lemma slice_pad: "slice_last2 (''00'' @ toString16 (unat (x::byte))) = padStart2 (toString16 (unat x))"
proof -
  have lt: "unat x < 256" using unsigned_less [of x, where ?'a = nat] by simp
  show ?thesis
  proof (cases "unat x < 16")
    case True
    then show ?thesis by (simp add: toString16_small slice_last2_def padStart2_def)
  next
    case False
    with lt show ?thesis by (simp add: toString16_byte slice_last2_def padStart2_def)
  qed
qed

lemma toHex_local_eq: "toHex_local bs = toHex bs"
  unfolding toHex_local_def toHex_def slice_pad by (rule refl)

lemma is_alnum_hexdigit: "n < 16 \<Longrightarrow> is_alnum (hexdigit n)"
  by (auto simp: is_alnum_def is_alpha_def is_digit_def hexdigit_def)

lemma is_alnum_toHex: "x \<in> set (toHex bs) \<Longrightarrow> is_alnum x"
proof -
  assume "x \<in> set (toHex bs)"
  then obtain b :: byte where "x = hexdigit (unat b div 16) \<or> x = hexdigit (unat b mod 16)"
    by (auto simp: toHex_def byte_hex)
  moreover have "unat b div 16 < 16"
  proof -
    have "unat b < 256" using unsigned_less [of b, where ?'a = nat] by simp
    then show ?thesis by arith
  qed
  moreover have "unat b mod 16 < 16" by simp
  ultimately show ?thesis using is_alnum_hexdigit by auto
qed

lemma is_alnum_not: "is_alnum c \<Longrightarrow> c \<noteq> CHR ''='' \<and> c \<noteq> CHR '' ''"
  by (auto simp: is_alnum_def is_alpha_def is_digit_def)

lemma urlencoded_string_alnum: "(\<And>x. x \<in> set s \<Longrightarrow> is_alnum x) \<Longrightarrow> urlencoded_string s = s"
proof (induction s)
  case Nil
  then show ?case by (simp add: urlencoded_string_def)
next
  case (Cons c s)
  then have "is_alnum c" by simp
  then have "urlencoded_byte c = [c]" using is_alnum_not [of c] by (simp add: urlencoded_byte_def)
  moreover have "urlencoded_string s = s" using Cons by simp
  ultimately show ?case by (simp add: urlencoded_string_def)
qed

lemma urlencoded_string_append: "urlencoded_string (a @ b) = urlencoded_string a @ urlencoded_string b"
  by (simp add: urlencoded_string_def)

lemma urlencoded_prefix: "urlencoded_string signaturePrefix = ''hmac-sha256%3D''"
  by code_simp

lemma urlencoded_signature: "urlencoded_string (signaturePrefix @ toHex bs) = ''hmac-sha256%3D'' @ toHex bs"
  by (simp add: urlencoded_string_append urlencoded_prefix urlencoded_string_alnum is_alnum_toHex)

lemma strip_prefix: "(if startsWith (signaturePrefix @ h) signaturePrefix
    then drop (length signaturePrefix) (signaturePrefix @ h) else signaturePrefix @ h) = h"
  by (simp add: startsWith_def)

lemma last_segment: "CHR ''='' \<in> set (signaturePrefix @ toHex bs)
    \<and> last (split_on CHR ''='' (signaturePrefix @ toHex bs)) = toHex bs"
proof -
  have n: "CHR ''='' \<notin> set (toHex bs)" using is_alnum_toHex is_alnum_not by blast
  have e: "signaturePrefix @ toHex bs = ''hmac-sha256'' @ CHR ''='' # toHex bs"
    by (simp add: signaturePrefix_def)
  have sp: "split_on CHR ''='' (''hmac-sha256'' @ CHR ''='' # toHex bs) = ''hmac-sha256'' # split_on CHR ''='' (toHex bs)"
    by (rule split_on_append) simp
  show ?thesis unfolding e sp using n by (simp add: split_on_no_sep)
qed

lemma update_steps_twice: "update_steps l (update_steps l' u) = update_steps l u"
  by (simp add: update_steps_def Let_def)

lemma searchParams_update: "searchParams (update_steps l u) = l"
  by (simp add: update_steps_def Let_def)

lemma synced_same_origin:
  "synced u \<Longrightarrow> synced (update_steps l u)"
  by (simp add: synced_def update_steps_def Let_def serialize_empty_iff)

lemma map_of_append_absent: "n \<notin> fst ` set l \<Longrightarrow> map_of (l @ l') n = map_of l' n"
  by (induction l) auto

lemma filter_absent: "n \<notin> fst ` set l \<Longrightarrow> filter (\<lambda>p. fst p \<noteq> n) l = l"
  by (induction l) auto

lemma verifySdkSignature_signed:
  assumes s: "synced u" and n: "''signature'' \<notin> fst ` set (searchParams u)"
  shows "verifySdkSignature HMAC
           (URL_toString (searchParams_append ''signature''
              (signaturePrefix @ toHex (HMAC secret (URL_toString u))) u)) secret = Inr True"
proof -
  let ?sig = "signaturePrefix @ toHex (HMAC secret (URL_toString u))"
  let ?u3 = "searchParams_append ''signature'' ?sig u"
  have s3: "synced ?u3" unfolding searchParams_append_def using s by (rule synced_same_origin)
  have p: "URL_parse (URL_toString ?u3) = Some ?u3" using s3 by (rule URL_parse_toString)
  have g: "searchParams_get ?u3 ''signature'' = Some ?sig"
    using n by (simp add: searchParams_get_def searchParams_append_def searchParams_update map_of_append_absent
        del: map_of_append)
  have ne: "?sig \<noteq> []" by (simp add: signaturePrefix_def)
  have "update_steps (searchParams u) u = u"
    using s by (simp add: update_steps_def synced_def Let_def serialize_empty_iff)
  then have d: "searchParams_delete ''signature'' ?u3 = u"
    using n by (simp add: searchParams_delete_def searchParams_append_def searchParams_update
        update_steps_twice filter_absent)
  show ?thesis
    unfolding verifySdkSignature_def p using ne
    by (simp add: g d Let_def strip_prefix Buffer_from_hex_toHex del: startsWith_def)
qed

lemma verifyCdnSignedUrl_rejects:
  assumes "URL_parse fullUrl = Some u"
    and "searchParams_get u ''expires'' = None
         \<or> (\<exists>e. searchParams_get u ''expires'' = Some e \<and>
               (e = [] \<or> parseInt10 e = None \<or> (\<exists>t. parseInt10 e = Some t \<and> t < now)))"
  shows "\<not> verifyCdnSignedUrl HMAC now fullUrl secret"
  using assms by (auto simp: verifyCdnSignedUrl_def split: option.splits)

lemma verifyCdnSignedUrl_signed:
  assumes s: "synced u"
    and n: "''signature'' \<notin> fst ` set (searchParams u)"
    and e: "searchParams_get u ''expires'' = Some (Number_toString t)"
    and le: "now \<le> t"
  shows "verifyCdnSignedUrl HMAC now
           (URL_toString (searchParams_append ''signature''
              (signaturePrefix @ toHex (HMAC secret (URL_toString u))) u)) secret"
proof -
  let ?sig = "signaturePrefix @ toHex (HMAC secret (URL_toString u))"
  let ?u3 = "searchParams_append ''signature'' ?sig u"
  have s3: "synced ?u3" unfolding searchParams_append_def using s by (rule synced_same_origin)
  have p: "URL_parse (URL_toString ?u3) = Some ?u3" using s3 by (rule URL_parse_toString)
  have g: "searchParams_get ?u3 ''signature'' = Some ?sig"
    using n by (simp add: searchParams_get_def searchParams_append_def searchParams_update map_of_append_absent
        del: map_of_append)
  have ge: "searchParams_get ?u3 ''expires'' = Some (Number_toString t)"
    using e by (simp add: searchParams_get_def searchParams_append_def searchParams_update map_add_Some_iff)
  have ne: "?sig \<noteq> []" by (simp add: signaturePrefix_def)
  have nt: "Number_toString t \<noteq> []"
    using parseInt10_Number_toString [of t] by (auto simp: parseInt10_def Let_def)
  have "update_steps (searchParams u) u = u"
    using s by (simp add: update_steps_def synced_def Let_def serialize_empty_iff)
  then have d: "searchParams_delete ''signature'' ?u3 = u"
    using n by (simp add: searchParams_delete_def searchParams_append_def searchParams_update
        update_steps_twice filter_absent)
  show ?thesis
    unfolding verifyCdnSignedUrl_def p using ne nt le last_segment [of "HMAC secret (URL_toString u)"]
    by (simp add: g ge d Let_def parseInt10_Number_toString Buffer_from_hex_toHex)
qed

lemma authMiddleware_authorized:
  "authorized env authHeader \<Longrightarrow> authMiddleware env path authHeader next s = next"
  by (auto simp: authorized_def authMiddleware_def split: option.splits sum.splits)

lemma authMiddleware_cases:
  "authMiddleware env path authHeader next s = next
   \<or> snd (authMiddleware env path authHeader next s) = s"
  by (auto simp: authMiddleware_def split: option.splits sum.splits)

lemma ingestAuthMiddleware_verified:
  "verifySdkSignature (HMAC_SHA256 env) url (API_SECRET env) = Inr True
   \<Longrightarrow> ingestAuthMiddleware env url next s = next"
  by (simp add: ingestAuthMiddleware_def)

lemma ingestAuthMiddleware_cases:
  "ingestAuthMiddleware env url next s = next \<or> snd (ingestAuthMiddleware env url next s) = s"
  by (auto simp: ingestAuthMiddleware_def split: sum.splits)

lemma findUnique_Some: "findUnique fs k = Some f \<Longrightarrow> f \<in> set fs \<and> key f = k"
  by (induction fs) (auto simp: findUnique_def split: if_splits)

lemma findUnique_None: "findUnique fs k = None \<longleftrightarrow> (\<forall>f \<in> set fs. key f \<noteq> k)"
  by (induction fs) (auto simp: findUnique_def)

lemma findUnique_map:
  assumes "\<And>g. key (h g) = key g"
  shows "findUnique (map h fs) k = map_option h (findUnique fs k)"
  using assms by (induction fs) (auto simp: findUnique_def)

lemma findUnique_append:
  "findUnique (fs @ gs) k = (case findUnique fs k of None \<Rightarrow> findUnique gs k | Some f \<Rightarrow> Some f)"
  by (induction fs) (auto simp: findUnique_def)

lemma upsert_existing: "findUnique fs (key c) = Some f \<Longrightarrow> upsert c fs = fs"
  by (simp add: upsert_def)

lemma upsert_fresh: "findUnique fs (key c) = None \<Longrightarrow> findUnique (upsert c fs) (key c) = Some c"
  by (simp add: upsert_def findUnique_append) (simp add: findUnique_def)

lemma upsert_other: "findUnique fs k = Some f \<Longrightarrow> findUnique (upsert c fs) k = Some f"
  by (simp add: upsert_def findUnique_append split: option.splits)

lemma set_upsert: "set (upsert c fs) \<subseteq> insert c (set fs)"
  by (auto simp: upsert_def split: option.splits)

lemma update_found:
  assumes "findUnique fs k = Some f" and "\<And>g. key (d g) = key g"
  shows "update now k d fs =
           Inr ((d f)\<lparr>updatedAt := now\<rparr>,
                map (\<lambda>g. if key g = k then (d g)\<lparr>updatedAt := now\<rparr> else g) fs)"
    and "findUnique (map (\<lambda>g. if key g = k then (d g)\<lparr>updatedAt := now\<rparr> else g) fs) k
           = Some ((d f)\<lparr>updatedAt := now\<rparr>)"
proof -
  show "update now k d fs =
           Inr ((d f)\<lparr>updatedAt := now\<rparr>,
                map (\<lambda>g. if key g = k then (d g)\<lparr>updatedAt := now\<rparr> else g) fs)"
    using assms(1) by (simp add: update_def)
  have "\<And>g. key (if key g = k then (d g)\<lparr>updatedAt := now\<rparr> else g) = key g"
    using assms(2) by simp
  then have "findUnique (map (\<lambda>g. if key g = k then (d g)\<lparr>updatedAt := now\<rparr> else g) fs) k
      = map_option (\<lambda>g. if key g = k then (d g)\<lparr>updatedAt := now\<rparr> else g) (findUnique fs k)"
    by (rule findUnique_map)
  then show "findUnique (map (\<lambda>g. if key g = k then (d g)\<lparr>updatedAt := now\<rparr> else g) fs) k
           = Some ((d f)\<lparr>updatedAt := now\<rparr>)"
    using assms(1) findUnique_Some [OF assms(1)] by simp
qed

lemma update_missing: "findUnique fs k = None \<Longrightarrow> update now k d fs = Inl (Error ''Record to update not found.'')"
  by (simp add: update_def)

lemma ingestAuthMiddleware_snd:
  "all_rows Q s \<Longrightarrow> all_rows Q (snd next) \<Longrightarrow> all_rows Q (snd (ingestAuthMiddleware env url next s))"
  using ingestAuthMiddleware_cases [of env url "next" s] by auto

lemma authMiddleware_snd:
  "all_rows Q s \<Longrightarrow> all_rows Q (snd next)
   \<Longrightarrow> all_rows Q (snd (authMiddleware env path authHeader next s))"
  using authMiddleware_cases [of env path authHeader "next" s] by auto

lemma all_rows_update:
  assumes "all_rows P s" and "update now k d (files s) = Inr (u, fs)"
    and "\<And>g. P g \<Longrightarrow> P ((d g)\<lparr>updatedAt := now\<rparr>)"
  shows "all_rows P (s\<lparr>files := fs\<rparr>)"
  using assms by (auto simp: all_rows_def update_def split: option.splits)

lemma all_rows_updateMany:
  assumes "all_rows P s" and "\<And>g. P g \<Longrightarrow> P ((d g)\<lparr>updatedAt := now\<rparr>)"
  shows "\<forall>f \<in> set (fst (updateMany now wh d (files s))). P f"
  using assms by (auto simp: all_rows_def updateMany_def)

lemma all_rows_deleteMany: "all_rows P s \<Longrightarrow> \<forall>f \<in> set (fst (deleteMany wh (files s))). P f"
  by (auto simp: all_rows_def deleteMany_def)

lemma all_rows_upsert: "all_rows P s \<Longrightarrow> P c \<Longrightarrow> all_rows P (s\<lparr>files := upsert c (files s)\<rparr>)"
  using set_upsert [of c "files s"] by (auto simp: all_rows_def)

lemma files_storage_delete: "files (fold (\<lambda>f. storage_delete (key f)) l s) = files s"
  by (induction l arbitrary: s) (auto simp: storage_delete_def)

lemma create_data_inv: "create_data dn p url k rid now = Inr c \<Longrightarrow> lifecycle_inv c \<and> key c = k \<and> status c = UPLOADING"
  by (auto simp: create_data_def lifecycle_inv_def split: sum.splits option.splits)

lemma rename_all_rows:
  "(\<forall>f \<in> set fs. P f) \<Longrightarrow> (\<And>g n. P g \<Longrightarrow> P (g\<lparr>name := n, updatedAt := now\<rparr>))
   \<Longrightarrow> rename_all now us fs = Some (fs', n) \<Longrightarrow> \<forall>f \<in> set fs'. P f"
proof (induction us arbitrary: fs fs' n)
  case Nil
  then show ?case by simp
next
  case (Cons u us)
  from Cons.prems(3) obtain wh n' where
    r: "rename_all now us (fst (updateMany now wh (\<lambda>f. f\<lparr>name := newName u\<rparr>) fs)) = Some (fs', n')"
    by (auto simp: case_prod_unfold Let_def split: option.splits)
  have "\<forall>f \<in> set (fst (updateMany now wh (\<lambda>f. f\<lparr>name := newName u\<rparr>) fs)). P f"
    using Cons.prems(1,2) by (auto simp: updateMany_def)
  then show ?case using Cons.IH [OF _ Cons.prems(2) r] by blast
qed

lemma acl_all_rows:
  "(\<forall>f \<in> set fs. P f) \<Longrightarrow> (\<And>g a. P g \<Longrightarrow> P (g\<lparr>acl := a, updatedAt := now\<rparr>))
   \<Longrightarrow> acl_all now us fs = Some (fs', n) \<Longrightarrow> \<forall>f \<in> set fs'. P f"
proof (induction us arbitrary: fs fs' n)
  case Nil
  then show ?case by simp
next
  case (Cons u us)
  let ?d = "\<lambda>f. f\<lparr>acl := (if newAcl u = ''public-read'' then PUBLIC_READ else PRIVATE)\<rparr>"
  from Cons.prems(3) obtain wh n' where
    r: "acl_all now us (fst (updateMany now wh ?d fs)) = Some (fs', n')"
    by (auto simp: case_prod_unfold Let_def split: option.splits)
  have "\<forall>f \<in> set (fst (updateMany now wh ?d fs)). P f"
    using Cons.prems(1,2) by (auto simp: updateMany_def)
  then show ?case using Cons.IH [OF _ Cons.prems(2) r] by blast
qed

lemma step_lifecycle_inv:
  assumes "all_rows lifecycle_inv s"
  shows "all_rows lifecycle_inv (step env ev s)"
proof (cases ev)
  case (IngestGet now rid url k)
  show ?thesis
    unfolding IngestGet step_def handle.simps ingest_get_def
    by (rule ingestAuthMiddleware_snd [OF assms])
      (auto split: sum.splits intro: all_rows_upsert assms dest: create_data_inv)
next
  case (IngestPut now rid url k blob)
  let ?d = "\<lambda>f. f\<lparr>status := UPLOADED, fileHash := Some (SHA256_hex env blob), uploadedAt := Some now\<rparr>"
  have d: "\<And>g. lifecycle_inv g \<Longrightarrow> lifecycle_inv ((?d g)\<lparr>updatedAt := now\<rparr>)"
    by (simp add: lifecycle_inv_def)
  {
    fix c assume c: "create_data ''unknown'' parseInt10 url k rid now = Inr c"
    let ?s1 = "s\<lparr>files := upsert c (files s)\<rparr>"
    let ?s2 = "?s1\<lparr>uploads := (uploads ?s1)(k \<mapsto> blob)\<rparr>"
    have a1: "all_rows lifecycle_inv ?s1" using assms create_data_inv [OF c] by (auto intro: all_rows_upsert)
    then have a2: "all_rows lifecycle_inv ?s2" by (simp add: all_rows_def)
    have "all_rows lifecycle_inv (snd (case update now k ?d (files ?s2) of
                  Inl e \<Rightarrow> (internal_error, ?s2)
                | Inr (updated, fs) \<Rightarrow>
                    (respond 200 (JsonUploaded (getPublicUrl env k) updated), ?s2\<lparr>files := fs\<rparr>)))"
      using a2 all_rows_update [OF a2 _ d] by (auto split: sum.splits)
  }
  then show ?thesis
    unfolding IngestPut step_def handle.simps ingest_put_def
    by (intro ingestAuthMiddleware_snd [OF assms])
      (auto simp: storage_upload_def Let_def assms split: sum.splits)
next
  case (DeleteFiles authHeader req)
  show ?thesis
    unfolding DeleteFiles step_def handle.simps deleteFiles_def
    by (rule authMiddleware_snd [OF assms])
      (use assms in \<open>auto simp: Let_def case_prod_unfold all_rows_def deleteMany_def files_storage_delete
        split: option.splits\<close>)
next
  case (RenameFiles now authHeader updates)
  have "\<And>g n. lifecycle_inv g \<Longrightarrow> lifecycle_inv (g\<lparr>name := n, updatedAt := now\<rparr>)"
    by (simp add: lifecycle_inv_def)
  then have "\<And>fs n. rename_all now updates (files s) = Some (fs, n) \<Longrightarrow> \<forall>f \<in> set fs. lifecycle_inv f"
    using assms rename_all_rows [of "files s" lifecycle_inv now updates] by (auto simp: all_rows_def)
  then show ?thesis
    unfolding RenameFiles step_def handle.simps renameFiles_def
    by (intro authMiddleware_snd [OF assms])
      (use assms in \<open>auto simp: all_rows_def split: option.splits\<close>)
next
  case (UpdateACL now authHeader updates)
  have "\<And>g a. lifecycle_inv g \<Longrightarrow> lifecycle_inv (g\<lparr>acl := a, updatedAt := now\<rparr>)"
    by (simp add: lifecycle_inv_def)
  then have "\<And>fs n. acl_all now updates (files s) = Some (fs, n) \<Longrightarrow> \<forall>f \<in> set fs. lifecycle_inv f"
    using assms acl_all_rows [of "files s" lifecycle_inv now updates] by (auto simp: all_rows_def)
  then show ?thesis
    unfolding UpdateACL step_def handle.simps updateACL_def
    by (intro authMiddleware_snd [OF assms])
      (use assms in \<open>auto simp: all_rows_def split: option.splits\<close>)
next
  case (CompleteMultipart now authHeader k)
  let ?d = "\<lambda>f. f\<lparr>status := UPLOADED, uploadedAt := Some now\<rparr>"
  have d: "\<And>g. lifecycle_inv g \<Longrightarrow> lifecycle_inv ((?d g)\<lparr>updatedAt := now\<rparr>)"
    by (simp add: lifecycle_inv_def)
  show ?thesis
    unfolding CompleteMultipart step_def handle.simps completeMultipart_def
    by (rule authMiddleware_snd [OF assms])
      (use assms all_rows_update [OF assms _ d] in \<open>auto split: sum.splits\<close>)
next
  case (FailureCallback now authHeader k)
  let ?d = "\<lambda>f. f\<lparr>status := FAILED\<rparr>"
  have d: "\<And>g. lifecycle_inv g \<Longrightarrow> lifecycle_inv ((?d g)\<lparr>updatedAt := now\<rparr>)"
    by (simp add: lifecycle_inv_def)
  show ?thesis
    unfolding FailureCallback step_def handle.simps failureCallback_def
    by (rule authMiddleware_snd [OF assms])
      (use assms all_rows_update [OF assms _ d] in \<open>auto split: sum.splits\<close>)
next
  case (RouteMetadata now req)
  show ?thesis
    using assms unfolding RouteMetadata step_def handle.simps route_metadata_def
    by (auto simp: all_rows_def updateMany_def lifecycle_inv_def Let_def)
qed

lemma run_lifecycle_inv: "all_rows lifecycle_inv s \<Longrightarrow> all_rows lifecycle_inv (run env evs s)"
  by (induction evs arbitrary: s) (auto intro: step_lifecycle_inv)

lemma split_first_join:
  "split_first c s = (a, r) \<Longrightarrow> s = a @ (case r of None \<Rightarrow> [] | Some t \<Rightarrow> c # t)"
proof -
  assume a: "split_first c s = (a, r)"
  have id: "s = takeWhile (\<lambda>x. x \<noteq> c) s @ dropWhile (\<lambda>x. x \<noteq> c) s" by simp
  show ?thesis
  proof (cases "c \<in> set s")
    case True
    then have "dropWhile (\<lambda>x. x \<noteq> c) s \<noteq> []" by (simp add: dropWhile_eq_Nil_conv)
    then obtain y ys where d: "dropWhile (\<lambda>x. x \<noteq> c) s = y # ys" by (cases "dropWhile (\<lambda>x. x \<noteq> c) s") auto
    then have "y = c" using hd_dropWhile [of "\<lambda>x. x \<noteq> c" s] by auto
    with a True d id show ?thesis by (auto simp: split_first_def)
  next
    case False
    then have "takeWhile (\<lambda>x. x \<noteq> c) s = s" by (auto simp: takeWhile_eq_all_conv)
    with a False show ?thesis by (auto simp: split_first_def)
  qed
qed

lemma URL_toString_parse: "URL_parse s = Some u \<Longrightarrow> URL_toString u = s"
proof -
  assume a: "URL_parse s = Some u"
  obtain s1 frag where f: "split_first CHR ''#'' s = (s1, frag)" by (cases "split_first CHR ''#'' s")
  obtain s0 q where q: "split_first CHR ''?'' s1 = (s0, q)" by (cases "split_first CHR ''?'' s1")
  from a f q have u: "origin_path u = s0" "query u = q" "fragment u = frag"
    by (auto simp: URL_parse_def split: if_splits)
  show ?thesis
    using split_first_join [OF f] split_first_join [OF q]
    by (simp add: URL_toString_def u)
qed

lemma demo_authorized: "authorized demo_env (Some ''sk_test'')"
  by code_simp

lemma demo_uploading_files:
  "files demo_uploading =
     [\<lparr>id' = ''row1'', customId = None, key = ''abc'', name = ''a.txt'', size' = 0,
       type' = ''application/octet-stream'', status = UPLOADING, acl = PRIVATE,
       contentDisposition = Some INLINE, metadata = None, callbackUrl = None,
       callbackSlug = None, fileHash = None, uploadedAt = None, createdAt = 5,
       updatedAt = 5\<rparr>]"
  by code_simp

lemma demo_uploaded_files:
  "files demo_uploaded =
     [\<lparr>id' = ''row1'', customId = None, key = ''abc'', name = ''a.txt'', size' = 0,
       type' = ''application/octet-stream'', status = UPLOADED, acl = PRIVATE,
       contentDisposition = Some INLINE, metadata = None, callbackUrl = None,
       callbackSlug = None, fileHash = Some ''03'', uploadedAt = Some 5, createdAt = 5,
       updatedAt = 5\<rparr>]"
  by code_simp

lemma demo_failed_files:
  "files demo_failed =
     [\<lparr>id' = ''row1'', customId = None, key = ''abc'', name = ''a.txt'', size' = 0,
       type' = ''application/octet-stream'', status = FAILED, acl = PRIVATE,
       contentDisposition = Some INLINE, metadata = None, callbackUrl = None,
       callbackSlug = None, fileHash = Some ''03'', uploadedAt = Some 5, createdAt = 5,
       updatedAt = 6\<rparr>]"
  by code_simp

lemma demo_completed_files:
  "files demo_completed =
     [\<lparr>id' = ''row1'', customId = None, key = ''abc'', name = ''a.txt'', size' = 0,
       type' = ''application/octet-stream'', status = UPLOADED, acl = PRIVATE,
       contentDisposition = Some INLINE, metadata = None, callbackUrl = None,
       callbackSlug = None, fileHash = None, uploadedAt = Some 6, createdAt = 5,
       updatedAt = 6\<rparr>]"
  by code_simp

lemma demo_public_files:
  "files demo_public =
     [\<lparr>id' = ''row2'', customId = None, key = ''pub'', name = ''unknown'', size' = 0,
       type' = ''application/octet-stream'', status = UPLOADED, acl = PUBLIC_READ,
       contentDisposition = Some INLINE, metadata = None, callbackUrl = None,
       callbackSlug = None, fileHash = Some ''02'', uploadedAt = Some 5, createdAt = 5,
       updatedAt = 5\<rparr>]"
  by code_simp

lemma demo_uploads:
  "uploads demo_uploading ''abc'' = None"
  "uploads demo_uploaded ''abc'' = Some [1, 2, 3]"
  "uploads demo_public ''pub'' = Some [4, 5]"
  by code_simp+

lemma demo_read_url_verified: "verifyCdnSignedUrl demo_mac 7 demo_read_url ''sk_test''"
  by code_simp

lemma demo_reachable:
  "reachable demo_env demo_uploading" "reachable demo_env demo_uploaded"
  "reachable demo_env demo_failed" "reachable demo_env demo_completed"
  "reachable demo_env demo_public"
proof -
  show "reachable demo_env demo_uploading"
    unfolding reachable_def demo_uploading_def by blast
  show "reachable demo_env demo_uploaded"
    unfolding reachable_def demo_uploaded_def by blast
  show "reachable demo_env demo_public"
    unfolding reachable_def demo_public_def by blast
  have "demo_failed = run demo_env [IngestPut 5 ''row1'' demo_put_url ''abc'' [1, 2, 3],
      FailureCallback 6 (Some ''sk_test'') ''abc''] initial"
    by (simp add: demo_failed_def demo_uploaded_def)
  then show "reachable demo_env demo_failed" unfolding reachable_def by blast
  have "demo_completed = run demo_env [IngestGet 5 ''row1'' demo_put_url ''abc'',
      CompleteMultipart 6 (Some ''sk_test'') ''abc''] initial"
    by (simp add: demo_completed_def demo_uploading_def)
  then show "reachable demo_env demo_completed" unfolding reachable_def by blast
qed

section \<open>C9: polling a record that is not Uploaded\<close>

text \<open>
  C9. For every existing file record whose status is not Uploaded, and so also for a
  Failed one, the poll route \<open>GET /v6/pollUpload/:fileKey\<close>, called with a valid
  API key, answers 200 with status \<open>still working\<close> and file \<open>null\<close>, and leaves the
  state as it is. A failed upload is therefore answered exactly as one in progress.
\<close>

theorem pollUpload_not_uploaded:
  assumes "authorized env authHeader"
    and "findUnique (files s) k = Some file"
    and "status file \<noteq> UPLOADED"
  shows "pollUpload env authHeader k s = (respond 200 (JsonPoll ''still working'' None), s)"
  using assms by (simp add: pollUpload_def authMiddleware_authorized)

text \<open>
  The theorem at a Failed record and at one still Uploading: the two answers are equal.
\<close>

theorem pollUpload_not_uploaded_witness:
  "map status (files demo_failed) = [FAILED]
   \<and> map status (files demo_uploading) = [UPLOADING]
   \<and> fst (pollUpload demo_env (Some ''sk_test'') ''abc'' demo_failed)
       = respond 200 (JsonPoll ''still working'' None)
   \<and> fst (pollUpload demo_env (Some ''sk_test'') ''abc'' demo_failed)
       = fst (pollUpload demo_env (Some ''sk_test'') ''abc'' demo_uploading)"
proof -
  have f: "findUnique (files demo_failed) ''abc'' = Some (hd (files demo_failed))"
    by (simp add: demo_failed_files findUnique_def)
  have sf: "status (hd (files demo_failed)) \<noteq> UPLOADED" by (simp add: demo_failed_files)
  have u: "findUnique (files demo_uploading) ''abc'' = Some (hd (files demo_uploading))"
    by (simp add: demo_uploading_files findUnique_def)
  have su: "status (hd (files demo_uploading)) \<noteq> UPLOADED" by (simp add: demo_uploading_files)
  show ?thesis
    using pollUpload_not_uploaded [OF demo_authorized f sf]
      pollUpload_not_uploaded [OF demo_authorized u su]
    by (simp add: demo_failed_files demo_uploading_files)
qed

section \<open>C10: the CDN read looks the record up before it looks at the signature\<close>

text \<open>
  C10. On \<open>GET /f/:fileKey\<close> the record lookup comes first. For a key with no record the
  answer is 404 \<open>File not found\<close> whatever the request URL is, so also with no signature
  or a wrong one. The signature is looked at only for a record that exists and is Private:
  when the record is absent or not Private, the answer is the same for every request URL,
  secret, MAC and clock. A private record whose URL does not verify is answered 403, so
  the two answers tell an unauthenticated caller whether a private key exists.
\<close>

theorem cdn_read_lookup_first:
  "(findUnique (files s) k = None \<longrightarrow>
      cdn_read env now url k s = (respond 404 (JsonError ''File not found''), s))
   \<and> ((\<forall>f. findUnique (files s) k = Some f \<longrightarrow> acl f \<noteq> PRIVATE) \<longrightarrow>
      cdn_read env now url k s
        = cdn_read (env\<lparr>API_SECRET := secret', HMAC_SHA256 := mac'\<rparr>) now' url' k s)
   \<and> ((\<exists>f. findUnique (files s) k = Some f \<and> acl f = PRIVATE) \<and> URL_parse url \<noteq> None
        \<and> \<not> verifyCdnSignedUrl (HMAC_SHA256 env) now url (API_SECRET env) \<longrightarrow>
      cdn_read env now url k s = (respond 403 (JsonError ''Invalid or expired signed URL''), s))"
proof (intro conjI impI)
  assume "findUnique (files s) k = None"
  then show "cdn_read env now url k s = (respond 404 (JsonError ''File not found''), s)"
    by (simp add: cdn_read_def)
next
  assume "\<forall>f. findUnique (files s) k = Some f \<longrightarrow> acl f \<noteq> PRIVATE"
  then show "cdn_read env now url k s
        = cdn_read (env\<lparr>API_SECRET := secret', HMAC_SHA256 := mac'\<rparr>) now' url' k s"
    by (cases "findUnique (files s) k") (simp_all add: cdn_read_def)
next
  assume a: "(\<exists>f. findUnique (files s) k = Some f \<and> acl f = PRIVATE) \<and> URL_parse url \<noteq> None
        \<and> \<not> verifyCdnSignedUrl (HMAC_SHA256 env) now url (API_SECRET env)"
  then obtain f u where f: "findUnique (files s) k = Some f" "acl f = PRIVATE"
    and u: "URL_parse url = Some u" by auto
  have "URL_toString u = url" using u by (rule URL_toString_parse)
  with a f u show "cdn_read env now url k s = (respond 403 (JsonError ''Invalid or expired signed URL''), s)"
    by (simp add: cdn_read_def)
qed

text \<open>
  The theorem where no record exists, at a public record, and at a private record read
  through a URL without a signature.
\<close>

theorem cdn_read_lookup_first_witness:
  "findUnique (files initial) ''abc'' = None
   \<and> cdn_read demo_env 7 ''http://localhost:3000/f/abc'' ''abc'' initial
       = (respond 404 (JsonError ''File not found''), initial)
   \<and> map acl (files demo_public) = [PUBLIC_READ]
   \<and> cdn_read demo_env 7 ''http://localhost:3000/f/pub'' ''pub'' demo_public
       = cdn_read (demo_env\<lparr>API_SECRET := ''other'', HMAC_SHA256 := (\<lambda>s p. [])\<rparr>) 99
           ''http://localhost:3000/f/pub?signature=00'' ''pub'' demo_public
   \<and> map acl (files demo_uploaded) = [PRIVATE]
   \<and> cdn_read demo_env 7 ''http://localhost:3000/f/abc'' ''abc'' demo_uploaded
       = (respond 403 (JsonError ''Invalid or expired signed URL''), demo_uploaded)"
proof -
  have n: "findUnique (files initial) ''abc'' = None" by (simp add: initial_def findUnique_def)
  have p: "\<forall>f. findUnique (files demo_public) ''pub'' = Some f \<longrightarrow> acl f \<noteq> PRIVATE"
    by (simp add: demo_public_files findUnique_def)
  have v: "(\<exists>f. findUnique (files demo_uploaded) ''abc'' = Some f \<and> acl f = PRIVATE)
      \<and> URL_parse ''http://localhost:3000/f/abc'' \<noteq> None
      \<and> \<not> verifyCdnSignedUrl (HMAC_SHA256 demo_env) 7 ''http://localhost:3000/f/abc'' (API_SECRET demo_env)"
  proof (intro conjI)
    show "\<exists>f. findUnique (files demo_uploaded) ''abc'' = Some f \<and> acl f = PRIVATE"
      by (simp add: demo_uploaded_files findUnique_def)
    show "URL_parse ''http://localhost:3000/f/abc'' \<noteq> None" by code_simp
    show "\<not> verifyCdnSignedUrl (HMAC_SHA256 demo_env) 7 ''http://localhost:3000/f/abc'' (API_SECRET demo_env)"
      by code_simp
  qed
  note t1 = cdn_read_lookup_first [where s = initial and k = "''abc''" and env = demo_env
      and now = 7 and url = "''http://localhost:3000/f/abc''"]
  note t2 = cdn_read_lookup_first [where s = demo_public and k = "''pub''" and env = demo_env
      and now = 7 and url = "''http://localhost:3000/f/pub''" and secret' = "''other''"
      and mac' = "\<lambda>s p. []" and now' = 99 and url' = "''http://localhost:3000/f/pub?signature=00''"]
  note t3 = cdn_read_lookup_first [where s = demo_uploaded and k = "''abc''" and env = demo_env
      and now = 7 and url = "''http://localhost:3000/f/abc''"]
  from t1 n have c1: "cdn_read demo_env 7 ''http://localhost:3000/f/abc'' ''abc'' initial
       = (respond 404 (JsonError ''File not found''), initial)" by blast
  from t2 p have c2: "cdn_read demo_env 7 ''http://localhost:3000/f/pub'' ''pub'' demo_public
       = cdn_read (demo_env\<lparr>API_SECRET := ''other'', HMAC_SHA256 := (\<lambda>s p. [])\<rparr>) 99
           ''http://localhost:3000/f/pub?signature=00'' ''pub'' demo_public" by blast
  from t3 v have c3: "cdn_read demo_env 7 ''http://localhost:3000/f/abc'' ''abc'' demo_uploaded
       = (respond 403 (JsonError ''Invalid or expired signed URL''), demo_uploaded)" by blast
  show ?thesis using n c1 c2 c3 by (simp add: demo_public_files demo_uploaded_files)
qed

end
